theory Spec2Isabelle
  imports Complex_Main
begin

section \<open>Conventions of the embedding\<close>

text \<open>
  The orchestrator's coordination and memory layer is written in Python. The embedding
  below follows the source function by function:
  \<^item> a Python float is a \<open>real\<close>. The similarity and the retrieval score are computed
    in double precision, each operation rounded (section on double-precision
    arithmetic); the importance and utility scores are computed in exact arithmetic;
  \<^item> a \<open>datetime\<close> is a \<open>real\<close> number of seconds, and \<open>datetime.now()\<close> is a
    parameter \<open>now\<close> of the function that reads the clock;
  \<^item> an exception is a value \<open>Inl e\<close> of the sum \<open>py_error + 'a\<close>;
  \<^item> a database table is a list of rows, and an SQL statement is the list function that
    does what the statement does to the table;
  \<^item> a string is a list of characters; the string literals of the source are ASCII, and
    \<open>lower\<close> and \<open>len\<close> are modelled for ASCII text.
\<close>

text \<open>
  The exceptions of the modelled code. \<open>ConnectionError\<close>, \<open>LockAcquisitionError\<close> and
  \<open>BlackboardError\<close> are the classes that blackboard.py declares;
  \<open>RedisConnectionError\<close> and \<open>RedisTimeoutError\<close> are \<open>redis.ConnectionError\<close> and
  \<open>redis.TimeoutError\<close> of the client library, and \<open>RedisError\<close> is any other instance
  of its base class \<open>redis.RedisError\<close>.
\<close>

datatype py_error =
    ValueError
  | IndexError
  | ZeroDivisionError
  | OverflowError
  | LockAcquisitionError
  | ConnectionError
  | BlackboardError
  | RedisConnectionError
  | RedisTimeoutError
  | RedisError

section \<open>Importance scoring (consolidation.py, \<open>_calculate_importance\<close>)\<close>

definition lower_char :: "char \<Rightarrow> char" where
  "lower_char c =
     (let n = (of_char c :: nat) in if 65 \<le> n \<and> n \<le> 90 then char_of (n + 32) else c)"

definition lower :: "string \<Rightarrow> string" where
  "lower s = map lower_char s"

fun starts_with :: "string \<Rightarrow> string \<Rightarrow> bool" where
  "starts_with [] s = True"
| "starts_with (p # ps) [] = False"
| "starts_with (p # ps) (c # cs) = (p = c \<and> starts_with ps cs)"

text \<open>Python's \<open>sub in s\<close> on strings.\<close>

fun str_contains :: "string \<Rightarrow> string \<Rightarrow> bool" where
  "str_contains sub [] = (sub = [])"
| "str_contains sub (c # cs) = (starts_with sub (c # cs) \<or> str_contains sub cs)"

definition high_indicators :: "string list" where
  "high_indicators =
     [''error'', ''exception'', ''failed'', ''failure'', ''critical'',
      ''security'', ''vulnerability'', ''breach'', ''exploit'',
      ''decision:'', ''decided to'', ''choosing'', ''architectural'',
      ''breaking change'', ''deprecated'', ''removed'',
      ''user preference'', ''configuration'', ''setting'',
      ''bug'', ''fix'', ''patch'', ''workaround'',
      ''performance issue'', ''bottleneck'', ''optimization'']"

definition low_indicators :: "string list" where
  "low_indicators =
     [''debug:'', ''trace:'', ''verbose:'',
      ''status: ok'', ''success'', ''completed normally'',
      ''starting'', ''initialized'', ''loading'',
      ''info:'', ''running'', ''processing'']"

text \<open>\<open>sum(1 for indicator in indicators if indicator in content_lower)\<close>\<close>

definition count_matches :: "string list \<Rightarrow> string \<Rightarrow> nat" where
  "count_matches indicators content_lower =
     length (filter (\<lambda>indicator. str_contains indicator content_lower) indicators)"

definition calculate_importance :: "string \<Rightarrow> real" where
  "calculate_importance content =
     (let content_lower = lower content;
          high_count = count_matches high_indicators content_lower;
          low_count = count_matches low_indicators content_lower;
          base_score =
            (if high_count > 0 then 0.7 + real (min high_count 3) * 0.1
             else if low_count > 0 then 0.3 - real (min low_count 3) * 0.1
             else 0.5);
          length = length content;
          base_score' =
            (if length < 50 \<or> length > 500 then min (base_score + 0.1) 1.0 else base_score)
      in max 0.0 (min 1.0 base_score'))"

section \<open>Double-precision arithmetic\<close>

text \<open>
  A Python \<open>float\<close> is an IEEE 754 binary64 number. A finite double is modelled as the
  real number it denotes, and an operation of the source is modelled as the exact
  operation followed by rounding to the nearest double, ties to even. \<open>pow2 e\<close> is
  \<open>2 ^ e\<close> for an integer exponent; \<open>exponent x\<close> is the exponent of the binade of \<open>x\<close>,
  not below that of the smallest normal number, so that the subnormal range has its
  fixed spacing, to which zero belongs; \<open>spacing x\<close> is the distance between neighbouring doubles around \<open>x\<close>
  (53 significant bits). Infinities and NaN are not modelled: the model follows the
  source as long as no intermediate result overflows.
\<close>

definition pow2 :: "int \<Rightarrow> real" where
  "pow2 e = (if 0 \<le> e then 2 ^ nat e else 1 / 2 ^ nat (- e))"

definition round_even :: "real \<Rightarrow> int" where
  "round_even y =
     (let f = \<lfloor>y\<rfloor>; r = y - of_int f
      in if r < 1 / 2 then f
         else if r > 1 / 2 then f + 1
         else if even f then f else f + 1)"

definition exponent :: "real \<Rightarrow> int" where
  "exponent x = (if x = 0 then - 1022 else max \<lfloor>log 2 \<bar>x\<bar>\<rfloor> (- 1022))"

definition spacing :: "real \<Rightarrow> real" where
  "spacing x = pow2 (exponent x - 52)"

definition fl :: "real \<Rightarrow> real" where
  "fl x = (if x = 0 then 0 else spacing x * of_int (round_even (x / spacing x)))"

text \<open>
  \<open>sum(...)\<close> over floats: the terms are added from left to right to the initial 0 and
  each partial sum is rounded. (An interpreter that compensates the rounding errors of
  \<open>sum\<close> returns the same value wherever the partial sums are exact, as they are in
  the evaluations below.)
\<close>

definition float_sum :: "real list \<Rightarrow> real" where
  "float_sum terms = foldl (\<lambda>acc t. fl (acc + t)) 0 terms"

text \<open>
  \<open>math.exp\<close>: the rounded exponential; it raises \<open>OverflowError\<close> when the result
  rounds beyond the largest double.
\<close>

definition math_exp :: "real \<Rightarrow> py_error + real" where
  "math_exp x =
     (if pow2 1024 - pow2 970 \<le> exp x then Inl OverflowError else Inr (fl (exp x)))"

section \<open>Consolidator configuration (consolidation.py, \<open>MemoryConsolidator.__init__\<close>)\<close>

record config =
  retrieval_weights :: "real \<times> real \<times> real"
  recency_decay_rate :: real
  clustering_threshold :: real
  min_cluster_size :: nat
  max_cluster_size :: nat
  importance_threshold_high :: real
  importance_threshold_low :: real
  utility_threshold :: real
  pattern_decay_rate :: real
  max_times_for_utility :: int

definition default_config :: config where
  "default_config =
     \<lparr> retrieval_weights = (0.5, 0.3, 0.2),
       recency_decay_rate = 0.995,
       clustering_threshold = 0.75,
       min_cluster_size = 2,
       max_cluster_size = 10,
       importance_threshold_high = 0.7,
       importance_threshold_low = 0.3,
       utility_threshold = 0.3,
       pattern_decay_rate = 0.01,
       max_times_for_utility = 100 \<rparr>"

section \<open>Cosine similarity and the retrieval score (consolidation.py)\<close>

text \<open>\<open>sum(x * y for x, y in zip(a, b))\<close> and \<open>sum(x * x for x in a)\<close>\<close>

definition dot_product :: "real list \<Rightarrow> real list \<Rightarrow> real" where
  "dot_product a b = float_sum (map (\<lambda>(x, y). fl (x * y)) (zip a b))"

definition sum_squares :: "real list \<Rightarrow> real" where
  "sum_squares a = float_sum (map (\<lambda>x. fl (x * x)) a)"

text \<open>
  \<open>_cosine_similarity\<close> raises \<open>ValueError\<close> when the lengths differ (the
  dimension mismatch of the specification), returns 0 for empty vectors and for a zero
  norm, and otherwise the rounded quotient of the dot product by the rounded product of
  the norms. The quotient is not clamped.
\<close>

definition cosine_similarity :: "real list \<Rightarrow> real list \<Rightarrow> py_error + real" where
  "cosine_similarity a b =
     (if length a \<noteq> length b then Inl ValueError
      else if a = [] \<or> b = [] then Inr 0
      else
        let dot = dot_product a b;
            norm_a = fl (sqrt (sum_squares a));
            norm_b = fl (sqrt (sum_squares b))
        in if norm_a = 0 \<or> norm_b = 0 then Inr 0
           else Inr (fl (dot / fl (norm_a * norm_b))))"

text \<open>
  \<open>calculate_retrieval_score\<close>. The clock value \<open>now\<close> and \<open>last_accessed\<close> are in
  seconds; \<open>(now - last_accessed).total_seconds()\<close> is the double nearest to the
  difference, and dividing it by 3600 gives the hours. \<open>weights = None\<close> selects the
  configured weights. The constants of the configuration enter as the doubles nearest
  to the decimal literals of the source. The sum is evaluated from left to right.
\<close>

definition calculate_retrieval_score ::
  "config \<Rightarrow> real \<Rightarrow> real list \<Rightarrow> real list \<Rightarrow> real \<Rightarrow> real
     \<Rightarrow> (real \<times> real \<times> real) option \<Rightarrow> py_error + real" where
  "calculate_retrieval_score cfg now memory_embedding query_embedding importance
       last_accessed weights =
     (let (w_rel, w_imp, w_rec) =
            (case weights of None \<Rightarrow> retrieval_weights cfg | Some w \<Rightarrow> w)
      in case cosine_similarity memory_embedding query_embedding of
           Inl e \<Rightarrow> Inl e
         | Inr relevance \<Rightarrow>
             let hours_since_access = fl (fl (now - last_accessed) / 3600);
                 decay_rate = fl (recency_decay_rate cfg)
             in case math_exp (fl (- decay_rate * hours_since_access)) of
                  Inl e \<Rightarrow> Inl e
                | Inr recency \<Rightarrow>
                    Inr (fl (fl (fl (fl w_rel * relevance) + fl (fl w_imp * importance))
                             + fl (fl w_rec * recency))))"

section \<open>Clustering of episodes (consolidation.py, \<open>_cluster_episodes\<close>)\<close>

record episode =
  episode_id :: string
  pipeline_run_id :: string
  step_number :: int
  role :: string
  episode_content :: string
  embedding :: "real list"
  episode_created_at :: real
  episode_importance :: "real option"
  episode_last_accessed :: "real option"

text \<open>
  The inner loop \<open>for candidate in episodes\<close>, with the cluster under construction and
  the set \<open>clustered_ids\<close> as its state. A candidate whose id is in the set is skipped;
  the loop is left when the cluster is full; a \<open>ValueError\<close> of the similarity leaves the
  function.
\<close>

fun add_similar ::
  "config \<Rightarrow> episode \<Rightarrow> episode list \<Rightarrow> episode list \<Rightarrow> string set
     \<Rightarrow> py_error + (episode list \<times> string set)" where
  "add_similar cfg seed_ep [] cluster clustered_ids = Inr (cluster, clustered_ids)"
| "add_similar cfg seed_ep (candidate # rest) cluster clustered_ids =
     (if episode_id candidate \<in> clustered_ids
      then add_similar cfg seed_ep rest cluster clustered_ids
      else if length cluster \<ge> max_cluster_size cfg
      then Inr (cluster, clustered_ids)
      else
        (case cosine_similarity (embedding seed_ep) (embedding candidate) of
           Inl e \<Rightarrow> Inl e
         | Inr similarity \<Rightarrow>
             if similarity \<ge> clustering_threshold cfg
             then add_similar cfg seed_ep rest (cluster @ [candidate])
                    (insert (episode_id candidate) clustered_ids)
             else add_similar cfg seed_ep rest cluster clustered_ids))"

text \<open>
  \<open>cluster[0].importance and cluster[0].importance >= importance_threshold_high\<close>: a
  missing importance and the importance 0.0 are false in Python.
\<close>

definition important_singleton :: "config \<Rightarrow> episode \<Rightarrow> bool" where
  "important_singleton cfg ep =
     (case episode_importance ep of
        None \<Rightarrow> False
      | Some i \<Rightarrow> i \<noteq> 0 \<and> i \<ge> importance_threshold_high cfg)"

text \<open>
  The outer loop \<open>for seed_ep in episodes\<close>: \<open>episodes\<close> is the whole list, which the
  inner loop scans again for each seed, and the second list is what the outer loop has
  still to visit.
\<close>

fun cluster_loop ::
  "config \<Rightarrow> episode list \<Rightarrow> episode list \<Rightarrow> episode list list \<Rightarrow> string set
     \<Rightarrow> py_error + episode list list" where
  "cluster_loop cfg episodes [] clusters clustered_ids = Inr clusters"
| "cluster_loop cfg episodes (seed_ep # rest) clusters clustered_ids =
     (if episode_id seed_ep \<in> clustered_ids
      then cluster_loop cfg episodes rest clusters clustered_ids
      else
        (case add_similar cfg seed_ep episodes [seed_ep]
                (insert (episode_id seed_ep) clustered_ids) of
           Inl e \<Rightarrow> Inl e
         | Inr (cluster, clustered_ids') \<Rightarrow>
             if length cluster \<ge> min_cluster_size cfg
             then cluster_loop cfg episodes rest (clusters @ [cluster]) clustered_ids'
             else
               (case cluster of
                  [] \<Rightarrow> Inl IndexError
                | first # others \<Rightarrow>
                    if important_singleton cfg first
                    then cluster_loop cfg episodes rest (clusters @ [cluster]) clustered_ids'
                    else cluster_loop cfg episodes rest clusters clustered_ids')))"

definition cluster_episodes :: "config \<Rightarrow> episode list \<Rightarrow> py_error + episode list list" where
  "cluster_episodes cfg episodes =
     (if episodes = [] then Inr []
      else cluster_loop cfg episodes episodes [] {})"

subsection \<open>The clustering rule in the words of the specification\<close>

text \<open>
  The specification's rule, written as a recursion over the episodes that are not yet
  clustered: the first of them is the seed; the later ones whose similarity to the seed
  reaches the threshold join it, in order, until the cluster has \<open>max_size\<close> members;
  the cluster is kept when it has at least \<open>min_size\<close> members or the seed's importance
  reaches the high threshold; the seed and the joiners are clustered from then on.
\<close>

definition similar_to_seed :: "config \<Rightarrow> episode \<Rightarrow> episode \<Rightarrow> bool" where
  "similar_to_seed cfg seed c =
     (case cosine_similarity (embedding seed) (embedding c) of
        Inl e \<Rightarrow> False
      | Inr sim \<Rightarrow> sim \<ge> clustering_threshold cfg)"

definition seed_promoted :: "config \<Rightarrow> episode \<Rightarrow> bool" where
  "seed_promoted cfg seed =
     (case episode_importance seed of
        None \<Rightarrow> False
      | Some i \<Rightarrow> i \<ge> importance_threshold_high cfg)"

function spec_clusters :: "config \<Rightarrow> episode list \<Rightarrow> episode list list" where
  "spec_clusters cfg [] = []"
| "spec_clusters cfg (seed # later) =
     (let joiners = take (max_cluster_size cfg - 1) (filter (similar_to_seed cfg seed) later);
          cluster = seed # joiners;
          unclustered = filter (\<lambda>c. episode_id c \<notin> set (map episode_id cluster)) later
      in (if length cluster \<ge> min_cluster_size cfg \<or> seed_promoted cfg seed
          then [cluster] else [])
         @ spec_clusters cfg unclustered)"
  by pat_completeness auto
termination
  by (relation "measure (\<lambda>(cfg, eps). length eps)") (auto simp: less_Suc_eq_le)

section \<open>Pattern utility in the consolidator (consolidation.py, \<open>calculate_utility_score\<close>)\<close>


section \<open>The embedded store (memory_lite.py)\<close>

subsection \<open>Recency and pattern learning\<close>




subsection \<open>Nodes (\<open>create_node\<close>)\<close>

text \<open>A JSON object with string values, as \<open>json.dumps\<close> writes and \<open>json.loads\<close> reads it.\<close>

type_synonym json_dict = "(string \<times> string) list"

record node_row =
  node_id :: string
  lite_node_type :: string
  node_content :: string
  node_metadata :: json_dict
  node_importance :: real
  access_count :: int
  node_created_at :: real
  node_last_accessed :: real
  node_valid_from :: "string option"
  node_valid_until :: "string option"

text \<open>
  \<open>INSERT OR REPLACE\<close> on the \<open>nodes\<close> table, whose primary key is \<open>id\<close>: a row in
  conflict on the key is deleted and the new row is inserted.
\<close>

definition insert_or_replace :: "node_row \<Rightarrow> node_row list \<Rightarrow> node_row list" where
  "insert_or_replace row nodes = filter (\<lambda>r. node_id r \<noteq> node_id row) nodes @ [row]"

text \<open>
  \<open>create_node\<close>. The parameter \<open>sha256_hex\<close> stands for
  \<open>hashlib.sha256(s.encode()).hexdigest()\<close>, which is library code. The columns that the
  statement does not name take their defaults: \<open>access_count = 0\<close> and the current time
  for \<open>created_at\<close> and \<open>last_accessed\<close>.
\<close>

definition create_node ::
  "(string \<Rightarrow> string) \<Rightarrow> real \<Rightarrow> node_row list \<Rightarrow> string \<Rightarrow> string \<Rightarrow> json_dict option \<Rightarrow> real
     \<Rightarrow> string option \<Rightarrow> string option \<Rightarrow> string \<times> node_row list" where
  "create_node sha256_hex now nodes node_type content metadata importance valid_from valid_until =
     (let nid = take 16 (sha256_hex (node_type @ '':'' @ content));
          metadata' = (case metadata of None \<Rightarrow> [] | Some m \<Rightarrow> m);
          row = \<lparr> node_id = nid, lite_node_type = node_type, node_content = content,
                  node_metadata = metadata', node_importance = importance, access_count = 0,
                  node_created_at = now, node_last_accessed = now,
                  node_valid_from = valid_from, node_valid_until = valid_until \<rparr>
      in (nid, insert_or_replace row nodes))"

section \<open>Semantic nodes and relations in the consolidator (consolidation.py)\<close>

record semantic_node =
  name :: string
  node_type :: string
  description :: string
  importance :: real
  sources :: "string list"
  created_at :: "real option"
  last_updated :: "real option"
  metadata :: "json_dict option"

text \<open>
  What a read of the \<open>sources\<close> column hands to Python: a \<open>str\<close> holding the JSON text
  of a list (what the \<open>TEXT\<close> column of the schema in the source returns), or a list
  already decoded by the driver. \<open>JsonText xs\<close> is the text that \<open>json.dumps xs\<close> writes
  and from which \<open>json.loads\<close> reads \<open>xs\<close> back.
\<close>

datatype sources_column = JsonText "string list" | DecodedList "string list"

record semantic_row =
  row_node_id :: nat
  row_name :: string
  row_node_type :: string
  row_description :: string
  row_importance :: real
  row_sources :: sources_column
  row_created_at :: real
  row_last_updated :: real

text \<open>The next value of an \<open>AUTOINCREMENT\<close> key.\<close>

definition next_key :: "nat list \<Rightarrow> nat" where
  "next_key keys = Suc (fold max keys 0)"

text \<open>
  The expression
  \<open>json.loads(existing['sources']) if isinstance(existing['sources'], str)
     else existing['sources'] + node.sources\<close>:
  the conditional expression binds weaker than \<open>+\<close>, so the sources of the new node are
  appended in the \<open>else\<close> branch only. \<open>list(set(...))\<close> keeps one copy of each element,
  in an order that Python does not fix; \<open>remdups\<close> is one such order.
\<close>

definition merged_sources :: "sources_column \<Rightarrow> string list \<Rightarrow> string list" where
  "merged_sources existing_sources node_sources =
     remdups (case existing_sources of
                JsonText xs \<Rightarrow> xs
              | DecodedList xs \<Rightarrow> xs @ node_sources)"

text \<open>
  \<open>_upsert_semantic_node\<close>: returns \<open>True\<close> when a row was inserted and \<open>False\<close> when
  the row of that name was updated. SQL's two-argument \<open>MAX\<close> is \<open>max\<close>.
\<close>

definition upsert_semantic_node ::
  "real \<Rightarrow> semantic_row list \<Rightarrow> semantic_node \<Rightarrow> bool \<times> semantic_row list" where
  "upsert_semantic_node now table node =
     (case find (\<lambda>r. row_name r = name node) table of
        Some existing \<Rightarrow>
          (let merged = merged_sources (row_sources existing) (sources node)
           in (False,
               map (\<lambda>r. if row_name r = name node
                         then r\<lparr> row_description := description node,
                                 row_importance := max (row_importance r) (importance node),
                                 row_sources := JsonText merged,
                                 row_last_updated := now \<rparr>
                         else r) table))
      | None \<Rightarrow>
          (True,
           table @
             [\<lparr> row_node_id = next_key (map row_node_id table),
                row_name = name node, row_node_type = node_type node,
                row_description = description node, row_importance = importance node,
                row_sources = JsonText (sources node),
                row_created_at = now, row_last_updated = now \<rparr>]))"

record relation =
  source :: string
  relation_type :: string
  target :: string
  strength :: real
  valid_from :: "real option"
  valid_to :: "real option"
  rel_metadata :: "json_dict option"

record relation_row =
  relation_id :: nat
  r_source :: string
  r_relation_type :: string
  r_target :: string
  r_strength :: real
  r_valid_from :: real
  r_valid_to :: "real option"
  r_metadata :: "json_dict option"

text \<open>The \<open>WHERE\<close> clause of the lookup: same triple and \<open>valid_to IS NULL\<close>.\<close>

definition active_for :: "relation \<Rightarrow> relation_row \<Rightarrow> bool" where
  "active_for rel r =
     (r_source r = source rel \<and> r_relation_type r = relation_type rel
      \<and> r_target r = target rel \<and> r_valid_to r = None)"

text \<open>
  \<open>_upsert_relation\<close>: \<open>fetchone\<close> yields the first active row of the triple, the
  \<open>UPDATE\<close> closes the row with that \<open>relation_id\<close>, and the \<open>INSERT\<close> adds the new row
  with the \<open>valid_to\<close> of the given relation. An empty or missing \<open>metadata\<close> is stored
  as \<open>NULL\<close>.
\<close>

definition upsert_relation ::
  "real \<Rightarrow> relation_row list \<Rightarrow> relation \<Rightarrow> bool \<times> relation_row list" where
  "upsert_relation now table rel =
     (let existing = find (active_for rel) table;
          table' =
            (case existing of
               Some ex \<Rightarrow>
                 map (\<lambda>r. if relation_id r = relation_id ex then r\<lparr> r_valid_to := Some now \<rparr>
                           else r) table
             | None \<Rightarrow> table);
          new_row =
            \<lparr> relation_id = next_key (map relation_id table),
              r_source = source rel, r_relation_type = relation_type rel,
              r_target = target rel, r_strength = strength rel,
              r_valid_from = (case valid_from rel of Some t \<Rightarrow> t | None \<Rightarrow> now),
              r_valid_to = valid_to rel,
              r_metadata =
                (case rel_metadata rel of
                   None \<Rightarrow> None
                 | Some m \<Rightarrow> if m = [] then None else Some m) \<rparr>
      in (True, table' @ [new_row]))"

section \<open>The blackboard (blackboard.py)\<close>

subsection \<open>The retry wrapper (\<open>retry_on_failure\<close>)\<close>

text \<open>
  One call of the wrapped function either returns a value or raises. The wrapped
  function is given as the outcome of its call in each attempt, \<open>func attempt\<close>.
\<close>

datatype 'a outcome = Returns 'a | Raises py_error

text \<open>\<open>except (redis.ConnectionError, redis.TimeoutError)\<close>\<close>

definition is_transient :: "py_error \<Rightarrow> bool" where
  "is_transient e = (e = RedisConnectionError \<or> e = RedisTimeoutError)"

text \<open>
  The loop \<open>for attempt in range(max_retries)\<close> of the wrapper. The result is what the
  wrapper returns or raises, the list of the delays it slept, in order, and the number
  of calls of the wrapped function it made. After the loop the wrapper raises the
  blackboard's \<open>ConnectionError\<close>.
\<close>

function wrapper_loop ::
  "int \<Rightarrow> real \<Rightarrow> (nat \<Rightarrow> 'a outcome) \<Rightarrow> nat \<Rightarrow> real list
     \<Rightarrow> (py_error + 'a) \<times> real list \<times> nat" where
  "wrapper_loop max_retries delay func attempt slept =
     (if int attempt < max_retries then
        (case func attempt of
           Returns v \<Rightarrow> (Inr v, slept, attempt + 1)
         | Raises e \<Rightarrow>
             if is_transient e then
               (if int attempt < max_retries - 1
                then wrapper_loop max_retries delay func (attempt + 1)
                       (slept @ [delay * (real attempt + 1)])
                else wrapper_loop max_retries delay func (attempt + 1) slept)
             else (Inl e, slept, attempt + 1))
      else (Inl ConnectionError, slept, attempt))"
  by pat_completeness auto
termination
  by (relation "measure (\<lambda>(max_retries, delay, func, attempt, slept).
                   nat (max_retries - int attempt))") auto

declare wrapper_loop.simps [simp del]

definition retry_on_failure ::
  "int \<Rightarrow> real \<Rightarrow> (nat \<Rightarrow> 'a outcome) \<Rightarrow> (py_error + 'a) \<times> real list \<times> nat" where
  "retry_on_failure max_retries delay func = wrapper_loop max_retries delay func 0 []"

text \<open>
  The class hierarchy of the client library: \<open>redis.ConnectionError\<close> and
  \<open>redis.TimeoutError\<close> are subclasses of \<open>redis.RedisError\<close>.
\<close>

definition is_redis_error :: "py_error \<Rightarrow> bool" where
  "is_redis_error e = (e = RedisError \<or> e = RedisConnectionError \<or> e = RedisTimeoutError)"

text \<open>
  The handler \<open>except redis.RedisError as e: raise BlackboardError(...) from e\<close> that
  closes the \<open>try\<close> block of each decorated method: an exception of the client library
  leaves the method as \<open>BlackboardError\<close>, any other exception as it is.
\<close>

definition translate_redis_errors :: "'a outcome \<Rightarrow> 'a outcome" where
  "translate_redis_errors out =
     (case out of
        Returns v \<Rightarrow> Returns v
      | Raises e \<Rightarrow> if is_redis_error e then Raises BlackboardError else Raises e)"

text \<open>
  A store operation of the blackboard: a method decorated with
  \<open>@retry_on_failure(max_retries=3)\<close>, the delay left at its default 0.5. The body of
  the method runs its store commands inside the \<open>try\<close> block that ends in the handler
  above; \<open>body attempt\<close> is the outcome of the store commands in the call made by
  that attempt.
\<close>

definition decorated_method :: "(nat \<Rightarrow> 'a outcome) \<Rightarrow> (py_error + 'a) \<times> real list \<times> nat" where
  "decorated_method body =
     retry_on_failure 3 0.5 (\<lambda>attempt. translate_redis_errors (body attempt))"

subsection \<open>Locks (\<open>acquire_lock\<close>)\<close>

text \<open>
  The store maps a key to its value and its expiry in milliseconds.
  \<open>redis.set(key, value, nx=True, px=timeout_ms)\<close> writes only when the key is absent
  and tells whether it wrote.
\<close>

type_synonym store = "string \<rightharpoonup> string \<times> int"

definition make_lock_key :: "string \<Rightarrow> string" where
  "make_lock_key resource_id = ''bb:lock:'' @ resource_id"

definition redis_set_nx :: "store \<Rightarrow> string \<Rightarrow> string \<Rightarrow> int \<Rightarrow> bool \<times> store" where
  "redis_set_nx st key v px =
     (case st key of
        None \<Rightarrow> (True, st(key \<mapsto> (v, px)))
      | Some held \<Rightarrow> (False, st))"

text \<open>
  \<open>wait_time\<close> starts at 0.01 and is doubled after each failed poll, so it is
  \<open>0.01 * 2 ^ k\<close> in poll number \<open>k\<close>; the sleep is \<open>min(wait_time, 1.0)\<close>.
\<close>

definition wait_time :: "nat \<Rightarrow> real" where
  "wait_time k = 0.01 * 2 ^ k"

definition backoff_sleep :: "nat \<Rightarrow> real" where
  "backoff_sleep k = min (wait_time k) 1.0"

text \<open>
  The polling loop of the blocking branch. Between two polls the other clients and the
  expiry of keys change the store: \<open>env k\<close> is what they do during sleep number \<open>k\<close>.
  The clock is ideal: a sleep takes its duration and everything else takes no time, so
  \<open>elapsed\<close> is the sum of the sleeps so far. The result is what the call returns or
  raises, the store it leaves, and the list of its sleeps.
\<close>

function acquire_blocking ::
  "(nat \<Rightarrow> store \<Rightarrow> store) \<Rightarrow> string \<Rightarrow> int \<Rightarrow> real \<Rightarrow> store \<Rightarrow> nat \<Rightarrow> real \<Rightarrow> real list
     \<Rightarrow> (py_error + bool) \<times> store \<times> real list" where
  "acquire_blocking env lock_key timeout_ms blocking_timeout st k elapsed slept =
     (if fst (redis_set_nx st lock_key ''1'' timeout_ms)
      then (Inr True, snd (redis_set_nx st lock_key ''1'' timeout_ms), slept)
      else if elapsed \<ge> blocking_timeout
      then (Inl LockAcquisitionError, snd (redis_set_nx st lock_key ''1'' timeout_ms), slept)
      else acquire_blocking env lock_key timeout_ms blocking_timeout
             (env k (snd (redis_set_nx st lock_key ''1'' timeout_ms))) (Suc k)
             (elapsed + backoff_sleep k) (slept @ [backoff_sleep k]))"
  by pat_completeness auto
termination
proof (relation "measure (\<lambda>(env, lock_key, timeout_ms, blocking_timeout, st, k, elapsed, slept).
                   nat \<lceil>(blocking_timeout - elapsed) * 100\<rceil>)")
  show "wf (measure (\<lambda>(env :: nat \<Rightarrow> store \<Rightarrow> store, lock_key :: string, timeout_ms :: int,
                       blocking_timeout :: real, st :: store, k :: nat, elapsed :: real,
                       slept :: real list).
                   nat \<lceil>(blocking_timeout - elapsed) * 100\<rceil>))"
    by simp
next
  fix env :: "nat \<Rightarrow> store \<Rightarrow> store" and lock_key :: string and timeout_ms :: int
    and blocking_timeout :: real and st :: store and k :: nat and elapsed :: real
    and slept :: "real list"
  assume "\<not> blocking_timeout \<le> elapsed"
  then have pos: "0 < (blocking_timeout - elapsed) * 100"
    by simp
  have "(1 :: real) \<le> 2 ^ k"
    by simp
  then have "0.01 \<le> backoff_sleep k"
    by (simp add: backoff_sleep_def wait_time_def)
  then have "(blocking_timeout - (elapsed + backoff_sleep k)) * 100
               \<le> (blocking_timeout - elapsed) * 100 - 1"
    by simp
  then have "\<lceil>(blocking_timeout - (elapsed + backoff_sleep k)) * 100\<rceil>
               \<le> \<lceil>(blocking_timeout - elapsed) * 100\<rceil> - 1"
    by (metis ceiling_diff_one ceiling_mono)
  moreover have "0 < \<lceil>(blocking_timeout - elapsed) * 100\<rceil>"
    using pos by simp
  ultimately show
    "((env, lock_key, timeout_ms, blocking_timeout,
       env k (snd (redis_set_nx st lock_key ''1'' timeout_ms)), Suc k,
       elapsed + backoff_sleep k, slept @ [backoff_sleep k]),
      (env, lock_key, timeout_ms, blocking_timeout, st, k, elapsed, slept))
     \<in> measure (\<lambda>(env, lock_key, timeout_ms, blocking_timeout, st, k, elapsed, slept).
                   nat \<lceil>(blocking_timeout - elapsed) * 100\<rceil>)"
    by simp
qed

declare acquire_blocking.simps [simp del]

text \<open>
  \<open>acquire_lock\<close>: the blocking branch polls; the other branch makes a single attempt
  and returns whether it wrote the marker.
\<close>

definition acquire_lock ::
  "(nat \<Rightarrow> store \<Rightarrow> store) \<Rightarrow> store \<Rightarrow> string \<Rightarrow> int \<Rightarrow> bool \<Rightarrow> real
     \<Rightarrow> (py_error + bool) \<times> store \<times> real list" where
  "acquire_lock env st resource_id timeout_ms blocking blocking_timeout =
     (let lock_key = make_lock_key resource_id
      in if blocking
         then acquire_blocking env lock_key timeout_ms blocking_timeout st 0 0 []
         else (Inr (fst (redis_set_nx st lock_key ''1'' timeout_ms)),
               snd (redis_set_nx st lock_key ''1'' timeout_ms), []))"

text \<open>The store after the other clients alone acted during the sleeps \<open>k, \<dots>, k + n - 1\<close>.\<close>

primrec env_run :: "(nat \<Rightarrow> store \<Rightarrow> store) \<Rightarrow> nat \<Rightarrow> nat \<Rightarrow> store \<Rightarrow> store" where
  "env_run env k 0 st = st"
| "env_run env k (Suc n) st = env_run env (Suc k) n (env k st)"

section \<open>Properties\<close>

subsection \<open>Properties of the importance score\<close>

lemma calculate_importance_formula:
  "calculate_importance content =
     (let h = min 3 (count_matches high_indicators (lower content));
          l = min 3 (count_matches low_indicators (lower content));
          base = (if h > 0 then 0.7 + 0.1 * real h
                  else if l > 0 then 0.3 - 0.1 * real l
                  else 0.5)
      in if length content < 50 \<or> length content > 500 then min 1 (base + 0.1) else base)"
proof -
  define hc where "hc = count_matches high_indicators (lower content)"
  define lc where "lc = count_matches low_indicators (lower content)"
  have h3: "real (min hc 3) \<le> 3" and l3: "real (min lc 3) \<le> 3"
    by simp_all
  have h0: "0 \<le> real (min hc 3)" and l0: "0 \<le> real (min lc 3)"
    by simp_all
  show ?thesis
    unfolding calculate_importance_def Let_def hc_def [symmetric] lc_def [symmetric]
    using h3 l3 h0 l0 by (auto simp: min_def max_def)
qed

lemma calculate_importance_range:
  "0 \<le> calculate_importance content \<and> calculate_importance content \<le> 1"
  unfolding calculate_importance_def Let_def by (simp add: min_def max_def)

lemma high_count_error_line:
  "count_matches high_indicators (lower ''Error: null pointer in auth module'') = 1"
  by code_simp

lemma calculate_importance_error_line:
  "calculate_importance ''Error: null pointer in auth module'' = 0.9"
  unfolding calculate_importance_def Let_def high_count_error_line by simp

lemma calculate_importance_started:
  "calculate_importance ''Started.'' = 0.6"
  by code_simp

text \<open>
  The indicator \<open>bug\<close> of the high list is a substring of the indicator \<open>debug:\<close> of the
  low list, so a content that matches \<open>debug:\<close> always has a positive high count and
  never reaches the low branch through it.
\<close>

lemma starts_with_append: "starts_with p s \<longleftrightarrow> (\<exists>t. s = p @ t)"
  by (induction p s rule: starts_with.induct) auto

lemma starts_with_debug_bug:
  "starts_with ''debug:'' s \<Longrightarrow> str_contains ''bug'' s"
proof -
  assume "starts_with ''debug:'' s"
  then obtain t where "s = ''debug:'' @ t"
    using starts_with_append by blast
  then show ?thesis by simp
qed

lemma str_contains_debug_bug:
  "str_contains ''debug:'' s \<Longrightarrow> str_contains ''bug'' s"
proof (induction s)
  case Nil
  then show ?case by simp
next
  case (Cons c cs)
  then show ?case
    using starts_with_debug_bug [of "c # cs"] by auto
qed

lemma debug_marker_scores_high:
  assumes "str_contains ''debug:'' (lower content)"
  shows "calculate_importance content \<ge> 0.8"
proof -
  have "str_contains ''bug'' (lower content)"
    using assms by (rule str_contains_debug_bug)
  then have "''bug'' \<in> set (filter (\<lambda>i. str_contains i (lower content)) high_indicators)"
    by (simp add: high_indicators_def)
  then have "count_matches high_indicators (lower content) > 0"
    unfolding count_matches_def by (metis length_pos_if_in_set)
  then show ?thesis
    unfolding calculate_importance_def Let_def by (auto simp: min_def max_def)
qed

lemma high_count_debug_line:
  "count_matches high_indicators (lower ''debug: loaded config'') = 1"
  by code_simp

text \<open>
  Claim C7 (the scenario part). The score of \<open>debug: loaded config\<close> is expected to be at
  most 0.3. The content contains the high indicator \<open>bug\<close> (inside \<open>debug\<close>), so the
  high branch gives 0.7 + 0.1, the content is shorter than 50 characters, and the
  function returns 0.9.
\<close>

theorem calculate_importance_debug_line:
  "calculate_importance ''debug: loaded config'' = 0.9
   \<and> \<not> calculate_importance ''debug: loaded config'' \<le> 0.3"
  unfolding calculate_importance_def Let_def high_count_debug_line by simp

subsection \<open>Rounding to double precision\<close>

text \<open>
  Rounding is odd and monotone, it leaves the representable numbers as they are, and a
  value within half a spacing of a representable number rounds to it.
\<close>

lemma pow2_powr: "pow2 e = 2 powr real_of_int e"
  by (simp add: pow2_def powr_real_of_int inverse_eq_divide)

lemma pow2_pos: "0 < pow2 e"
  by (simp add: pow2_powr)

lemma pow2_mono: "a \<le> b \<Longrightarrow> pow2 a \<le> pow2 b"
  by (simp add: pow2_powr)

lemma pow2_add: "pow2 (a + b) = pow2 a * pow2 b"
  by (simp add: pow2_powr powr_add)

lemma round_even_bounds: "\<lfloor>y\<rfloor> \<le> round_even y \<and> round_even y \<le> \<lfloor>y\<rfloor> + 1"
  by (simp add: round_even_def Let_def)

lemma round_even_of_int: "round_even (of_int n) = n"
  by (simp add: round_even_def Let_def)

lemma round_even_near:
  assumes "\<bar>y - of_int n\<bar> < 1 / 2"
  shows "round_even y = n"
proof (cases "of_int n \<le> y")
  case True
  then have "\<lfloor>y\<rfloor> = n"
    using assms by (intro floor_unique) linarith+
  moreover have "y - of_int n < 1 / 2"
    using assms by linarith
  ultimately show ?thesis
    by (simp add: round_even_def Let_def)
next
  case False
  then have f: "\<lfloor>y\<rfloor> = n - 1"
    using assms by (intro floor_unique) (simp, linarith+)
  have "y - of_int (n - 1) > 1 / 2"
    using assms False by simp
  then show ?thesis
    using f by (simp add: round_even_def Let_def)
qed

lemma round_even_mono:
  assumes "y \<le> z"
  shows "round_even y \<le> round_even z"
proof (cases "\<lfloor>y\<rfloor> = \<lfloor>z\<rfloor>")
  case True
  have "y - of_int \<lfloor>y\<rfloor> \<le> z - of_int \<lfloor>z\<rfloor>"
    using assms True by simp
  then show ?thesis
    unfolding round_even_def Let_def True by (simp split: if_splits)
next
  case False
  then have "\<lfloor>y\<rfloor> + 1 \<le> \<lfloor>z\<rfloor>"
    using assms floor_mono [of y z] by linarith
  then show ?thesis
    using round_even_bounds [of y] round_even_bounds [of z] by linarith
qed

lemma floor_uminus_nonint:
  assumes "y \<noteq> of_int \<lfloor>y\<rfloor>"
  shows "\<lfloor>- y\<rfloor> = - \<lfloor>y\<rfloor> - 1"
proof (rule floor_unique)
  have "of_int \<lfloor>y\<rfloor> < y"
    using assms of_int_floor_le [of y] by linarith
  then show "- y < of_int (- \<lfloor>y\<rfloor> - 1) + 1"
    by simp
  have "y < of_int \<lfloor>y\<rfloor> + 1"
    by linarith
  then show "of_int (- \<lfloor>y\<rfloor> - 1) \<le> - y"
    by simp
qed

lemma round_even_uminus: "round_even (- y) = - round_even y"
proof (cases "y = of_int \<lfloor>y\<rfloor>")
  case True
  then have "round_even y = \<lfloor>y\<rfloor>" "round_even (- y) = - \<lfloor>y\<rfloor>"
    using round_even_of_int [of "\<lfloor>y\<rfloor>"] round_even_of_int [of "- \<lfloor>y\<rfloor>"] by simp_all
  then show ?thesis by simp
next
  case False
  have fm: "\<lfloor>- y\<rfloor> = - \<lfloor>y\<rfloor> - 1"
    using False by (rule floor_uminus_nonint)
  define f where "f = \<lfloor>y\<rfloor>"
  define r where "r = y - of_int f"
  have r: "0 < r" "r < 1"
    using False of_int_floor_le [of y] by (simp_all add: r_def f_def) linarith+
  have y: "y = of_int f + r"
    by (simp add: r_def)
  have parity: "even (- f - 1) \<longleftrightarrow> odd f"
    by simp
  show ?thesis
    unfolding round_even_def Let_def fm f_def [symmetric]
    unfolding y parity
    using r by (auto simp: algebra_simps)
qed

lemma exponent_uminus: "exponent (- x) = exponent x"
  by (simp add: exponent_def)

lemma spacing_pos: "0 < spacing x"
  by (simp add: spacing_def pow2_pos)

lemma spacing_uminus: "spacing (- x) = spacing x"
  by (simp add: spacing_def exponent_uminus)

lemma fl_zero: "fl 0 = 0"
  by (simp add: fl_def)

lemma fl_uminus: "fl (- x) = - fl x"
  by (simp add: fl_def spacing_uminus round_even_uminus)

lemma exponent_eq:
  assumes "pow2 e \<le> \<bar>x\<bar>" and "\<bar>x\<bar> < pow2 (e + 1)" and "- 1022 \<le> e"
  shows "exponent x = e"
proof -
  have "0 < \<bar>x\<bar>"
    using assms(1) pow2_pos [of e] by linarith
  then have "\<lfloor>log 2 \<bar>x\<bar>\<rfloor> = e"
    using assms(1,2) by (simp add: floor_log_eq_powr_iff pow2_powr)
  then show ?thesis
    using assms(3) \<open>0 < \<bar>x\<bar>\<close> by (simp add: exponent_def)
qed

lemma exponent_subnormal:
  assumes "\<bar>x\<bar> < pow2 (- 1022)"
  shows "exponent x = - 1022"
proof (cases "x = 0")
  case True
  then show ?thesis by (simp add: exponent_def)
next
  case False
  then have pos: "0 < \<bar>x\<bar>" by simp
  have "log 2 \<bar>x\<bar> < real_of_int (- 1022)"
    using assms pos by (simp add: pow2_powr log_less_iff)
  then have "\<lfloor>log 2 \<bar>x\<bar>\<rfloor> < - 1022"
    by linarith
  then show ?thesis using False by (simp add: exponent_def)
qed

lemma exponent_upper:
  assumes "x \<noteq> 0"
  shows "\<bar>x\<bar> < pow2 (exponent x + 1)"
proof -
  have pos: "0 < \<bar>x\<bar>" using assms by simp
  have "\<lfloor>log 2 \<bar>x\<bar>\<rfloor> = \<lfloor>log 2 \<bar>x\<bar>\<rfloor>" ..
  then have "\<bar>x\<bar> < 2 powr (real_of_int \<lfloor>log 2 \<bar>x\<bar>\<rfloor> + 1)"
    using pos floor_log_eq_powr_iff [of "\<bar>x\<bar>" 2 "\<lfloor>log 2 \<bar>x\<bar>\<rfloor>"] by simp
  also have "\<dots> = pow2 (\<lfloor>log 2 \<bar>x\<bar>\<rfloor> + 1)"
    by (simp add: pow2_powr)
  also have "\<dots> \<le> pow2 (exponent x + 1)"
    using assms by (intro pow2_mono) (simp add: exponent_def)
  finally show ?thesis .
qed

lemma exponent_lower:
  assumes "- 1022 < exponent x"
  shows "pow2 (exponent x) \<le> \<bar>x\<bar>"
proof -
  have nz: "x \<noteq> 0"
    using assms by (auto simp: exponent_def)
  then have e: "exponent x = \<lfloor>log 2 \<bar>x\<bar>\<rfloor>"
    using assms by (simp add: exponent_def max_def split: if_splits)
  have pos: "0 < \<bar>x\<bar>" using nz by simp
  have "2 powr real_of_int \<lfloor>log 2 \<bar>x\<bar>\<rfloor> \<le> \<bar>x\<bar>"
    using pos floor_log_eq_powr_iff [of "\<bar>x\<bar>" 2 "\<lfloor>log 2 \<bar>x\<bar>\<rfloor>"] by simp
  then show ?thesis
    by (simp add: e pow2_powr)
qed

lemma exponent_mono:
  assumes "\<bar>x\<bar> \<le> \<bar>y\<bar>" and "x \<noteq> 0"
  shows "exponent x \<le> exponent y"
proof -
  have "0 < \<bar>x\<bar>" using assms(2) by simp
  then have "log 2 \<bar>x\<bar> \<le> log 2 \<bar>y\<bar>"
    using assms(1) by simp
  then have "\<lfloor>log 2 \<bar>x\<bar>\<rfloor> \<le> \<lfloor>log 2 \<bar>y\<bar>\<rfloor>"
    by (rule floor_mono)
  moreover have "y \<noteq> 0"
    using assms by auto
  ultimately show ?thesis
    using assms(2) by (simp add: exponent_def)
qed

lemma fl_nonneg:
  assumes "0 \<le> x"
  shows "0 \<le> fl x"
proof -
  have "0 \<le> x / spacing x"
    using assms spacing_pos [of x] by simp
  then have "0 \<le> \<lfloor>x / spacing x\<rfloor>"
    by simp
  then have "0 \<le> round_even (x / spacing x)"
    using round_even_bounds [of "x / spacing x"] by linarith
  then show ?thesis
    using spacing_pos [of x] by (simp add: fl_def)
qed

lemma fl_pos_upper:
  assumes "0 < x"
  shows "fl x \<le> pow2 (exponent x + 1)"
proof -
  have "exponent x + 1 = (exponent x - 52) + 53"
    by simp
  then have split: "pow2 (exponent x + 1) = spacing x * pow2 53"
    unfolding spacing_def by (simp only: pow2_add)
  have "x < pow2 (exponent x + 1)"
    using exponent_upper [of x] assms by simp
  then have "x / spacing x \<le> pow2 53"
    using spacing_pos [of x] by (simp add: split pos_divide_le_eq mult.commute)
  then have "round_even (x / spacing x) \<le> round_even (pow2 53)"
    by (rule round_even_mono)
  also have "pow2 53 = of_int (2 ^ 53)"
    by (simp add: pow2_def)
  finally have "round_even (x / spacing x) \<le> 2 ^ 53"
    by (simp only: round_even_of_int)
  then have "real_of_int (round_even (x / spacing x)) \<le> real_of_int (2 ^ 53)"
    by (simp only: of_int_le_iff)
  then have "real_of_int (round_even (x / spacing x)) \<le> pow2 53"
    by (simp add: pow2_def)
  then have "spacing x * real_of_int (round_even (x / spacing x)) \<le> spacing x * pow2 53"
    using spacing_pos [of x] by simp
  then show ?thesis
    using assms by (simp add: fl_def split)
qed

lemma fl_pos_lower:
  assumes "0 < x" and "- 1022 < exponent x"
  shows "pow2 (exponent x) \<le> fl x"
proof -
  have "exponent x = (exponent x - 52) + 52"
    by simp
  then have split: "pow2 (exponent x) = spacing x * pow2 52"
    unfolding spacing_def by (metis pow2_add)
  have "pow2 (exponent x) \<le> x"
    using exponent_lower [OF assms(2)] assms(1) by simp
  then have "pow2 52 \<le> x / spacing x"
    using spacing_pos [of x] by (simp add: split pos_le_divide_eq mult.commute)
  then have "round_even (pow2 52) \<le> round_even (x / spacing x)"
    by (rule round_even_mono)
  moreover have "pow2 52 = of_int (2 ^ 52)"
    by (simp add: pow2_def)
  ultimately have "2 ^ 52 \<le> round_even (x / spacing x)"
    by (simp only: round_even_of_int)
  then have "real_of_int (2 ^ 52) \<le> real_of_int (round_even (x / spacing x))"
    by (simp only: of_int_le_iff)
  then have "pow2 52 \<le> real_of_int (round_even (x / spacing x))"
    by (simp add: pow2_def)
  then have "spacing x * pow2 52 \<le> spacing x * real_of_int (round_even (x / spacing x))"
    using spacing_pos [of x] by simp
  then show ?thesis
    using assms by (simp add: fl_def split)
qed

lemma fl_mono_pos:
  assumes "0 < x" and "x \<le> y"
  shows "fl x \<le> fl y"
proof -
  have ypos: "0 < y" using assms by linarith
  have le: "exponent x \<le> exponent y"
    using assms by (intro exponent_mono) simp_all
  show ?thesis
  proof (cases "exponent x = exponent y")
    case True
    then have sp: "spacing x = spacing y"
      by (simp add: spacing_def)
    have "x / spacing y \<le> y / spacing y"
      using assms(2) spacing_pos [of y] by (simp add: divide_right_mono)
    then have "round_even (x / spacing y) \<le> round_even (y / spacing y)"
      by (rule round_even_mono)
    then have "spacing y * real_of_int (round_even (x / spacing y))
                 \<le> spacing y * real_of_int (round_even (y / spacing y))"
      using spacing_pos [of y] by simp
    then show ?thesis
      using assms ypos by (simp add: fl_def sp)
  next
    case False
    then have lt: "exponent x + 1 \<le> exponent y" using le by simp
    have "- 1022 \<le> exponent x"
      by (simp add: exponent_def)
    then have big: "- 1022 < exponent y" using lt by simp
    have "fl x \<le> pow2 (exponent x + 1)"
      using assms(1) by (rule fl_pos_upper)
    also have "\<dots> \<le> pow2 (exponent y)"
      using lt by (rule pow2_mono)
    also have "\<dots> \<le> fl y"
      using ypos big by (rule fl_pos_lower)
    finally show ?thesis .
  qed
qed

lemma fl_mono:
  assumes "x \<le> y"
  shows "fl x \<le> fl y"
proof -
  consider "0 < x" | "x \<le> 0" "0 \<le> y" | "y < 0" using assms by linarith
  then show ?thesis
  proof cases
    case 1
    then show ?thesis using assms by (rule fl_mono_pos)
  next
    case 2
    have "fl x = - fl (- x)" by (simp add: fl_uminus)
    moreover have "0 \<le> fl (- x)" using 2(1) by (intro fl_nonneg) simp
    moreover have "0 \<le> fl y" using 2(2) by (rule fl_nonneg)
    ultimately show ?thesis by linarith
  next
    case 3
    have "fl (- y) \<le> fl (- x)"
      using 3 assms by (intro fl_mono_pos) simp_all
    then show ?thesis by (simp add: fl_uminus)
  qed
qed

lemma fl_round:
  assumes "pow2 e \<le> \<bar>x\<bar>" and "\<bar>x\<bar> < pow2 (e + 1)" and "- 1022 \<le> e"
    and "\<bar>x / pow2 (e - 52) - of_int n\<bar> < 1 / 2"
  shows "fl x = pow2 (e - 52) * of_int n"
proof -
  have e: "exponent x = e"
    using assms(1-3) by (rule exponent_eq)
  have "x \<noteq> 0"
    using assms(1) pow2_pos [of e] by auto
  then show ?thesis
    using round_even_near [OF assms(4)] by (simp add: fl_def spacing_def e)
qed

lemma fl_exact:
  assumes "pow2 e \<le> \<bar>x\<bar>" and "\<bar>x\<bar> < pow2 (e + 1)" and "- 1022 \<le> e"
    and "x / pow2 (e - 52) = of_int n"
  shows "fl x = x"
proof -
  have "fl x = pow2 (e - 52) * of_int n"
    using assms(1-3) by (rule fl_round) (simp add: assms(4))
  also have "\<dots> = x"
    using pow2_pos [of "e - 52"] assms(4) [symmetric] by simp
  finally show ?thesis .
qed

lemma fl_one: "fl 1 = 1"
  by (rule fl_exact [of 0 1 "2 ^ 52"]) (simp_all add: pow2_def)

subsection \<open>Cosine similarity\<close>

lemma cosine_similarity_mismatch:
  "length a \<noteq> length b \<Longrightarrow> cosine_similarity a b = Inl ValueError"
  by (simp add: cosine_similarity_def)

lemma cosine_similarity_returns:
  "length a = length b \<Longrightarrow> \<exists>r. cosine_similarity a b = Inr r"
  by (simp add: cosine_similarity_def Let_def)

lemma float_sum_zeros: "list_all (\<lambda>t. t = 0) ts \<Longrightarrow> foldl (\<lambda>acc t. fl (acc + t)) 0 ts = 0"
  by (induction ts) (simp_all add: fl_zero)

lemma sum_squares_zero_vector: "list_all (\<lambda>x. x = 0) a \<Longrightarrow> sum_squares a = 0"
  unfolding sum_squares_def float_sum_def
  by (rule float_sum_zeros) (auto simp: list_all_iff fl_zero)

lemma cosine_similarity_zero_vector:
  assumes "length a = length b"
    and "list_all (\<lambda>x. x = 0) a \<or> list_all (\<lambda>x. x = 0) b"
  shows "cosine_similarity a b = Inr 0"
proof -
  have "sum_squares a = 0 \<or> sum_squares b = 0"
    using assms(2) sum_squares_zero_vector by blast
  then have "fl (sqrt (sum_squares a)) = 0 \<or> fl (sqrt (sum_squares b)) = 0"
    by (auto simp: fl_zero)
  then show ?thesis
    using assms(1) by (auto simp: cosine_similarity_def Let_def)
qed

text \<open>The evaluation of the similarity of the vector \<open>[2, 3]\<close> with itself.\<close>

lemma fl_4: "fl 4 = 4"
  by (rule fl_exact [of 2 4 "2 ^ 52"]) (simp_all add: pow2_def)

lemma fl_9: "fl 9 = 9"
  by (rule fl_exact [of 3 9 "9 * 2 ^ 49"]) (simp_all add: pow2_def)

lemma fl_13: "fl 13 = 13"
  by (rule fl_exact [of 3 13 "13 * 2 ^ 49"]) (simp_all add: pow2_def)

lemma sum_squares_2_3: "sum_squares [2, 3] = 13"
  by (simp add: sum_squares_def float_sum_def fl_4 fl_9 fl_13)

lemma dot_product_2_3: "dot_product [2, 3] [2, 3] = 13"
  by (simp add: dot_product_def float_sum_def fl_4 fl_9 fl_13)

lemma sqrt_13_lower: "(8118979690322419 - 1 / 2) / 2 ^ 51 < sqrt 13"
  by (rule real_less_rsqrt) (simp add: power2_eq_square)

lemma sqrt_13_upper: "sqrt 13 < (8118979690322419 + 1 / 2) / 2 ^ 51"
  by (rule real_less_lsqrt) (simp_all add: power2_eq_square)

lemma fl_sqrt_13: "fl (sqrt 13) = 8118979690322419 / 2 ^ 51"
proof -
  have lo: "2 \<le> sqrt 13"
    by (rule real_le_rsqrt) simp
  have hi: "sqrt 13 < 4"
    by (rule real_less_lsqrt) simp_all
  have "fl (sqrt 13) = pow2 (1 - 52) * of_int 8118979690322419"
  proof (rule fl_round)
    show "pow2 1 \<le> \<bar>sqrt 13\<bar>" using lo by (simp add: pow2_def)
    show "\<bar>sqrt 13\<bar> < pow2 (1 + 1)" using hi by (simp add: pow2_def)
    show "- 1022 \<le> (1 :: int)" by simp
    have "sqrt 13 * 2 ^ 51 - 8118979690322419 < 1 / 2"
      using sqrt_13_upper by (simp add: field_simps)
    moreover have "- (1 / 2) < sqrt 13 * 2 ^ 51 - 8118979690322419"
      using sqrt_13_lower by (simp add: field_simps)
    ultimately have "\<bar>sqrt 13 * 2 ^ 51 - 8118979690322419\<bar> < 1 / 2"
      by (simp only: abs_less_iff) simp
    then show "\<bar>sqrt 13 / pow2 (1 - 52) - of_int 8118979690322419\<bar> < 1 / 2"
      by (simp add: pow2_def)
  qed
  then show ?thesis by (simp add: pow2_def)
qed

lemma fl_norm_product:
  "fl (8118979690322419 / 2 ^ 51 * (8118979690322419 / 2 ^ 51)) = 7318349394477055 / 2 ^ 49"
proof -
  have "fl (8118979690322419 / 2 ^ 51 * (8118979690322419 / 2 ^ 51))
          = pow2 (3 - 52) * of_int 7318349394477055"
    by (rule fl_round) (simp_all add: pow2_def abs_less_iff)
  then show ?thesis by (simp add: pow2_def)
qed

lemma fl_quotient:
  "fl (13 / (7318349394477055 / 2 ^ 49)) = 4503599627370497 / 2 ^ 52"
proof -
  have "fl (13 / (7318349394477055 / 2 ^ 49)) = pow2 (0 - 52) * of_int 4503599627370497"
    by (rule fl_round) (simp_all add: pow2_def abs_less_iff)
  then show ?thesis by (simp add: pow2_def)
qed

text \<open>
  Claim C8 at a concrete input. The similarity of \<open>[2, 3]\<close> with itself: the dot product
  and both sums of squares are 13, each norm is the double nearest to the square root
  of 13, the rounded product of the norms is below 13 (12.999999999999998), and the
  rounded quotient is 1 + 2 ^ -52 (1.0000000000000002), above the bound 1 of the claim
  and of the function's docstring. The failure on a dimension mismatch and the result 0
  for a zero vector are as claimed.
\<close>

theorem cosine_similarity_exceeds_one:
  "cosine_similarity [2, 3] [2, 3] = Inr (4503599627370497 / 4503599627370496)
   \<and> \<not> (4503599627370497 / 4503599627370496 :: real) \<le> 1"
proof -
  have nz: "(8118979690322419 / 2 ^ 51 :: real) \<noteq> 0"
    by simp
  have "cosine_similarity [2, 3] [2, 3] = Inr (4503599627370497 / 2 ^ 52)"
    unfolding cosine_similarity_def Let_def sum_squares_2_3 dot_product_2_3 fl_sqrt_13
      fl_norm_product fl_quotient
    using nz by simp
  then show ?thesis by simp
qed

subsection \<open>Clustering\<close>

lemma similar_to_seed_cosine:
  assumes "cosine_similarity (embedding seed) (embedding c) = Inr s"
  shows "similar_to_seed cfg seed c \<longleftrightarrow> clustering_threshold cfg \<le> s"
  using assms by (simp add: similar_to_seed_def)

lemma add_similar_joiners:
  assumes dims: "\<forall>c \<in> set cs. length (embedding c) = length (embedding seed)"
    and dist: "distinct (map episode_id cs)"
  shows "add_similar cfg seed cs cluster ids =
     Inr (cluster @ take (max_cluster_size cfg - length cluster)
                      (filter (\<lambda>c. episode_id c \<notin> ids \<and> similar_to_seed cfg seed c) cs),
          ids \<union> set (map episode_id
                 (take (max_cluster_size cfg - length cluster)
                    (filter (\<lambda>c. episode_id c \<notin> ids \<and> similar_to_seed cfg seed c) cs))))"
  using assms
proof (induction cs arbitrary: cluster ids)
  case Nil
  then show ?case by simp
next
  case (Cons c cs)
  have dims': "\<forall>c \<in> set cs. length (embedding c) = length (embedding seed)"
    and dist': "distinct (map episode_id cs)"
    and fresh: "episode_id c \<notin> set (map episode_id cs)"
    using Cons.prems by simp_all
  note IH = Cons.IH [OF dims' dist']
  obtain s where s: "cosine_similarity (embedding seed) (embedding c) = Inr s"
    using cosine_similarity_returns [of "embedding seed" "embedding c"] Cons.prems(1) by auto
  show ?case
  proof (cases "episode_id c \<in> ids")
    case True
    then show ?thesis by (simp add: IH)
  next
    case unclustered: False
    show ?thesis
    proof (cases "max_cluster_size cfg \<le> length cluster")
      case True
      then show ?thesis using unclustered by simp
    next
      case room: False
      show ?thesis
      proof (cases "clustering_threshold cfg \<le> s")
        case False
        then show ?thesis
          using unclustered room s by (simp add: IH similar_to_seed_cosine [OF s])
      next
        case True
        have same: "filter (\<lambda>x. episode_id x \<notin> insert (episode_id c) ids \<and> similar_to_seed cfg seed x) cs
            = filter (\<lambda>x. episode_id x \<notin> ids \<and> similar_to_seed cfg seed x) cs"
          using fresh by (intro filter_cong) (auto simp: image_iff)
        have more: "max_cluster_size cfg - length cluster =
            Suc (max_cluster_size cfg - length (cluster @ [c]))"
          using room by simp
        have step: "add_similar cfg seed (c # cs) cluster ids =
            add_similar cfg seed cs (cluster @ [c]) (insert (episode_id c) ids)"
          using unclustered room s True by simp
        show ?thesis
          unfolding step IH same
          using unclustered True
          by (simp add: more similar_to_seed_cosine [OF s] del: length_append)
      qed
    qed
  qed
qed


lemma important_singleton_promoted:
  "0 < importance_threshold_high cfg \<Longrightarrow> important_singleton cfg ep = seed_promoted cfg ep"
  by (auto simp: important_singleton_def seed_promoted_def split: option.splits)

lemma spec_clusters_step:
  "spec_clusters cfg (seed # later) =
     (if min_cluster_size cfg
           \<le> length (seed # take (max_cluster_size cfg - 1) (filter (similar_to_seed cfg seed) later))
         \<or> seed_promoted cfg seed
      then [seed # take (max_cluster_size cfg - 1) (filter (similar_to_seed cfg seed) later)]
      else [])
     @ spec_clusters cfg
         (filter (\<lambda>c. episode_id c \<notin>
                     set (map episode_id
                       (seed # take (max_cluster_size cfg - 1)
                                 (filter (similar_to_seed cfg seed) later)))) later)"
  by (simp add: Let_def)

lemma cluster_loop_refines:
  assumes thr: "0 < importance_threshold_high cfg"
    and dims: "\<forall>e \<in> set all. length (embedding e) = d"
    and dist: "distinct (map episode_id all)"
    and split: "all = pre @ suf"
    and seen: "episode_id ` set pre \<subseteq> ids"
  shows "cluster_loop cfg all suf clusters ids =
           Inr (clusters @ spec_clusters cfg (filter (\<lambda>e. episode_id e \<notin> ids) suf))"
  using split seen
proof (induction suf arbitrary: pre clusters ids)
  case Nil
  then show ?case by simp
next
  case (Cons s suf)
  have all_eq: "all = (pre @ [s]) @ suf"
    using Cons.prems(1) by simp
  show ?case
  proof (cases "episode_id s \<in> ids")
    case True
    have "episode_id ` set (pre @ [s]) \<subseteq> ids"
      using True Cons.prems(2) by simp
    from Cons.IH [OF all_eq this, of clusters]
    show ?thesis using True by simp
  next
    case unclustered: False
    define U where "U = filter (\<lambda>e. episode_id e \<notin> ids) suf"
    define J where "J = take (max_cluster_size cfg - 1) (filter (similar_to_seed cfg s) U)"
    define ids' where "ids' = insert (episode_id s) ids \<union> set (map episode_id J)"
    have s_in: "s \<in> set all"
      using Cons.prems(1) by simp
    have dims_s: "\<forall>c \<in> set all. length (embedding c) = length (embedding s)"
      using dims s_in by simp
    have s_fresh: "episode_id s \<notin> episode_id ` set suf"
      using dist Cons.prems(1) by auto
    let ?P = "\<lambda>c. episode_id c \<notin> insert (episode_id s) ids \<and> similar_to_seed cfg s c"
    have pre_none: "filter ?P pre = []"
      using Cons.prems(2) by (auto simp: filter_empty_conv)
    have suf_P: "filter ?P suf = filter (similar_to_seed cfg s) U"
      unfolding U_def filter_filter using s_fresh by (intro filter_cong) (auto simp: image_iff)
    have all_P: "filter ?P all = filter (similar_to_seed cfg s) U"
    proof -
      have "filter ?P all = filter ?P pre @ filter ?P (s # suf)"
        unfolding Cons.prems(1) by (rule filter_append)
      moreover have "filter ?P (s # suf) = filter ?P suf"
        by simp
      ultimately show ?thesis
        by (simp only: pre_none suf_P append_Nil)
    qed
    have inner: "add_similar cfg s all [s] (insert (episode_id s) ids) = Inr (s # J, ids')"
      unfolding add_similar_joiners [OF dims_s dist] all_P
      by (simp add: J_def ids'_def)
    have rest: "filter (\<lambda>c. episode_id c \<notin> set (map episode_id (s # J))) U =
        filter (\<lambda>e. episode_id e \<notin> ids') suf"
      unfolding U_def filter_filter ids'_def by (intro filter_cong) auto
    have spec: "spec_clusters cfg (filter (\<lambda>e. episode_id e \<notin> ids) (s # suf)) =
        (if min_cluster_size cfg \<le> length (s # J) \<or> seed_promoted cfg s then [s # J] else [])
        @ spec_clusters cfg (filter (\<lambda>e. episode_id e \<notin> ids') suf)"
    proof -
      have "filter (\<lambda>e. episode_id e \<notin> ids) (s # suf) = s # U"
        using unclustered by (simp add: U_def)
      then show ?thesis
        by (simp only: spec_clusters_step J_def [symmetric] rest)
    qed
    have seen': "episode_id ` set (pre @ [s]) \<subseteq> ids'"
      using Cons.prems(2) by (auto simp: ids'_def)
    note IH = Cons.IH [OF all_eq seen']
    show ?thesis
      unfolding spec
      using unclustered inner IH [of "clusters @ [s # J]"] IH [of clusters]
      by (simp add: important_singleton_promoted [OF thr])
  qed
qed


text \<open>The rule of the specification with the default thresholds written out.\<close>

lemma spec_clusters_default:
  "spec_clusters default_config [] = []"
  "spec_clusters default_config (seed # later) =
     (let joiners = take 9 (filter (similar_to_seed default_config seed) later);
          cluster = seed # joiners;
          unclustered = filter (\<lambda>c. episode_id c \<notin> set (map episode_id cluster)) later
      in (if length cluster \<ge> 2 \<or> seed_promoted default_config seed then [cluster] else [])
         @ spec_clusters default_config unclustered)"
  "similar_to_seed default_config seed c \<longleftrightarrow>
     (\<exists>sim. cosine_similarity (embedding seed) (embedding c) = Inr sim \<and> sim \<ge> 0.75)"
  "seed_promoted default_config seed \<longleftrightarrow> (\<exists>i. episode_importance seed = Some i \<and> i \<ge> 0.7)"
  by (auto simp: default_config_def similar_to_seed_def seed_promoted_def Let_def
      split: sum.splits option.splits)

text \<open>
  Claim C6. For episodes with distinct ids and embeddings of one dimension, under the
  default configuration, \<open>_cluster_episodes\<close> returns exactly the clusters of the greedy
  seeded rule: the first unclustered episode is a seed, the later unclustered episodes
  with cosine similarity at least 0.75 to the seed join it in order until the cluster
  has 10 members, and a cluster with fewer than 2 members is dropped unless the
  importance of its seed is at least 0.7.
\<close>

theorem cluster_episodes_greedy_seeded:
  assumes "distinct (map episode_id episodes)"
    and "\<forall>e \<in> set episodes. length (embedding e) = d"
  shows "cluster_episodes default_config episodes = Inr (spec_clusters default_config episodes)"
proof (cases "episodes = []")
  case True
  then show ?thesis by (simp add: cluster_episodes_def)
next
  case False
  have thr: "0 < importance_threshold_high default_config"
    by (simp add: default_config_def)
  have "cluster_loop default_config episodes episodes [] {} =
          Inr ([] @ spec_clusters default_config (filter (\<lambda>e. episode_id e \<notin> {}) episodes))"
    using assms by (intro cluster_loop_refines [OF thr, where pre = "[]" and d = d]) simp_all
  then show ?thesis
    using False by (simp add: cluster_episodes_def)
qed

theorem cluster_episodes_greedy_seeded_witness:
  "cluster_episodes default_config
     [\<lparr> episode_id = ''a'', pipeline_run_id = ''R'', step_number = 1, role = ''executor'',
        episode_content = ''c'', embedding = [1, 0], episode_created_at = 0,
        episode_importance = None, episode_last_accessed = None \<rparr>,
      \<lparr> episode_id = ''b'', pipeline_run_id = ''R'', step_number = 2, role = ''executor'',
        episode_content = ''c'', embedding = [0, 1], episode_created_at = 0,
        episode_importance = Some 0.9, episode_last_accessed = None \<rparr>,
      \<lparr> episode_id = ''c'', pipeline_run_id = ''R'', step_number = 3, role = ''executor'',
        episode_content = ''c'', embedding = [1, 0], episode_created_at = 0,
        episode_importance = None, episode_last_accessed = None \<rparr>,
      \<lparr> episode_id = ''d'', pipeline_run_id = ''R'', step_number = 4, role = ''executor'',
        episode_content = ''c'', embedding = [0, 0], episode_created_at = 0,
        episode_importance = Some 0.1, episode_last_accessed = None \<rparr>]
   = Inr
     [ [\<lparr> episode_id = ''a'', pipeline_run_id = ''R'', step_number = 1, role = ''executor'',
        episode_content = ''c'', embedding = [1, 0], episode_created_at = 0,
        episode_importance = None, episode_last_accessed = None \<rparr>,
       \<lparr> episode_id = ''c'', pipeline_run_id = ''R'', step_number = 3, role = ''executor'',
        episode_content = ''c'', embedding = [1, 0], episode_created_at = 0,
        episode_importance = None, episode_last_accessed = None \<rparr>],
      [\<lparr> episode_id = ''b'', pipeline_run_id = ''R'', step_number = 2, role = ''executor'',
        episode_content = ''c'', embedding = [0, 1], episode_created_at = 0,
        episode_importance = Some 0.9, episode_last_accessed = None \<rparr>] ]"
proof -
  have eq: "cluster_episodes default_config
     [\<lparr> episode_id = ''a'', pipeline_run_id = ''R'', step_number = 1, role = ''executor'',
        episode_content = ''c'', embedding = [1, 0], episode_created_at = 0,
        episode_importance = None, episode_last_accessed = None \<rparr>,
      \<lparr> episode_id = ''b'', pipeline_run_id = ''R'', step_number = 2, role = ''executor'',
        episode_content = ''c'', embedding = [0, 1], episode_created_at = 0,
        episode_importance = Some 0.9, episode_last_accessed = None \<rparr>,
      \<lparr> episode_id = ''c'', pipeline_run_id = ''R'', step_number = 3, role = ''executor'',
        episode_content = ''c'', embedding = [1, 0], episode_created_at = 0,
        episode_importance = None, episode_last_accessed = None \<rparr>,
      \<lparr> episode_id = ''d'', pipeline_run_id = ''R'', step_number = 4, role = ''executor'',
        episode_content = ''c'', embedding = [0, 0], episode_created_at = 0,
        episode_importance = Some 0.1, episode_last_accessed = None \<rparr>]
   = Inr (spec_clusters default_config
     [\<lparr> episode_id = ''a'', pipeline_run_id = ''R'', step_number = 1, role = ''executor'',
        episode_content = ''c'', embedding = [1, 0], episode_created_at = 0,
        episode_importance = None, episode_last_accessed = None \<rparr>,
      \<lparr> episode_id = ''b'', pipeline_run_id = ''R'', step_number = 2, role = ''executor'',
        episode_content = ''c'', embedding = [0, 1], episode_created_at = 0,
        episode_importance = Some 0.9, episode_last_accessed = None \<rparr>,
      \<lparr> episode_id = ''c'', pipeline_run_id = ''R'', step_number = 3, role = ''executor'',
        episode_content = ''c'', embedding = [1, 0], episode_created_at = 0,
        episode_importance = None, episode_last_accessed = None \<rparr>,
      \<lparr> episode_id = ''d'', pipeline_run_id = ''R'', step_number = 4, role = ''executor'',
        episode_content = ''c'', embedding = [0, 0], episode_created_at = 0,
        episode_importance = Some 0.1, episode_last_accessed = None \<rparr>])"
    by (rule cluster_episodes_greedy_seeded [where d = 2]) simp_all
  show ?thesis
    unfolding eq
    by (simp add: default_config_def similar_to_seed_def seed_promoted_def cosine_similarity_def
        dot_product_def sum_squares_def float_sum_def fl_zero fl_one Let_def)
qed

subsection \<open>Retrieval score\<close>

lemma math_exp_nonpositive:
  assumes "x \<le> 0"
  shows "math_exp x = Inr (fl (exp x))"
proof -
  have "exp x \<le> 1" using assms by simp
  moreover have "(1 :: real) < pow2 1024 - pow2 970"
  proof -
    have "pow2 1024 = pow2 970 * pow2 54"
      using pow2_add [of 970 54] by simp
    moreover have "(1 :: real) \<le> pow2 970"
      using pow2_mono [of 0 970] by (simp add: pow2_def)
    moreover have "pow2 54 = 18014398509481984"
      by (simp add: pow2_def)
    ultimately show ?thesis by simp
  qed
  ultimately have "\<not> pow2 1024 - pow2 970 \<le> exp x"
    by linarith
  then show ?thesis
    by (simp add: math_exp_def)
qed

lemma retrieval_score_unfold:
  assumes "cosine_similarity m q = Inr rel"
    and "fl (- fl (199 / 200) * fl (fl (now - la) / 3600)) \<le> 0"
  shows "calculate_retrieval_score default_config now m q imp la None =
     Inr (fl (fl (fl (fl (1 / 2) * rel) + fl (fl (3 / 10) * imp))
              + fl (fl (1 / 5) * fl (exp (fl (- fl (199 / 200) * fl (fl (now - la) / 3600)))))))"
  using assms math_exp_nonpositive [OF assms(2)]
  by (simp add: calculate_retrieval_score_def default_config_def)

lemma decay_argument:
  assumes "0 \<le> d1" and "d1 \<le> d2"
  shows "fl (- fl (199 / 200) * fl (fl d2 / 3600)) \<le> fl (- fl (199 / 200) * fl (fl d1 / 3600))"
    and "fl (- fl (199 / 200) * fl (fl d1 / 3600)) \<le> 0"
proof -
  have r: "0 \<le> fl (199 / 200)"
    by (rule fl_nonneg) simp
  have "fl d1 \<le> fl d2"
    using assms(2) by (rule fl_mono)
  then have "fl d1 / 3600 \<le> fl d2 / 3600"
    by simp
  then have h: "fl (fl d1 / 3600) \<le> fl (fl d2 / 3600)"
    by (rule fl_mono)
  have "0 \<le> fl d1"
    using assms(1) by (rule fl_nonneg)
  then have h0: "0 \<le> fl (fl d1 / 3600)"
    by (intro fl_nonneg) simp
  have "- fl (199 / 200) * fl (fl d2 / 3600) \<le> - fl (199 / 200) * fl (fl d1 / 3600)"
    using r h by (simp add: mult_left_mono)
  then show "fl (- fl (199 / 200) * fl (fl d2 / 3600)) \<le> fl (- fl (199 / 200) * fl (fl d1 / 3600))"
    by (rule fl_mono)
  have "- fl (199 / 200) * fl (fl d1 / 3600) \<le> 0"
    using r h0 by (simp add: mult_nonneg_nonneg)
  then have "fl (- fl (199 / 200) * fl (fl d1 / 3600)) \<le> fl 0"
    by (rule fl_mono)
  then show "fl (- fl (199 / 200) * fl (fl d1 / 3600)) \<le> 0"
    by (simp add: fl_zero)
qed

text \<open>
  Claim C9, as the code has it. With the default weights and the memory embedding, the
  query embedding and the importance held fixed, the retrieval score computed in double
  precision does not increase when the time since the last access grows, for a last
  access that is not in the future. It does not decrease strictly: see below.
\<close>

theorem retrieval_score_recency_nonincreasing:
  assumes len: "length m = length q"
    and age: "0 \<le> now1 - la1"
    and later: "now1 - la1 \<le> now2 - la2"
  shows "\<exists>s1 s2. calculate_retrieval_score default_config now1 m q imp la1 None = Inr s1
           \<and> calculate_retrieval_score default_config now2 m q imp la2 None = Inr s2
           \<and> s2 \<le> s1"
proof -
  obtain rel where rel: "cosine_similarity m q = Inr rel"
    using cosine_similarity_returns [OF len] by blast
  define a1 where "a1 = fl (- fl (199 / 200) * fl (fl (now1 - la1) / 3600))"
  define a2 where "a2 = fl (- fl (199 / 200) * fl (fl (now2 - la2) / 3600))"
  have a21: "a2 \<le> a1" and a1: "a1 \<le> 0"
    unfolding a1_def a2_def using decay_argument [OF age later] by simp_all
  have a2: "a2 \<le> 0" using a21 a1 by linarith
  have w: "0 \<le> fl (1 / 5)"
    by (rule fl_nonneg) simp
  have "exp a2 \<le> exp a1" using a21 by simp
  then have "fl (exp a2) \<le> fl (exp a1)" by (rule fl_mono)
  then have "fl (1 / 5) * fl (exp a2) \<le> fl (1 / 5) * fl (exp a1)"
    using w by (rule mult_left_mono)
  then have "fl (fl (1 / 5) * fl (exp a2)) \<le> fl (fl (1 / 5) * fl (exp a1))"
    by (rule fl_mono)
  then have "fl (fl (fl (1 / 2) * rel) + fl (fl (3 / 10) * imp)) + fl (fl (1 / 5) * fl (exp a2))
           \<le> fl (fl (fl (1 / 2) * rel) + fl (fl (3 / 10) * imp)) + fl (fl (1 / 5) * fl (exp a1))"
    by simp
  then have "fl (fl (fl (fl (1 / 2) * rel) + fl (fl (3 / 10) * imp)) + fl (fl (1 / 5) * fl (exp a2)))
           \<le> fl (fl (fl (fl (1 / 2) * rel) + fl (fl (3 / 10) * imp)) + fl (fl (1 / 5) * fl (exp a1)))"
    by (rule fl_mono)
  then show ?thesis
    using retrieval_score_unfold [OF rel, of now1 la1 imp] retrieval_score_unfold [OF rel, of now2 la2 imp]
      a1 a2
    by (simp add: a1_def a2_def)
qed

theorem retrieval_score_recency_nonincreasing_witness:
  "\<exists>s1 s2. calculate_retrieval_score default_config 3600 [1] [1] (1 / 2) 0 None = Inr s1
           \<and> calculate_retrieval_score default_config 7200 [1] [1] (1 / 2) 0 None = Inr s2
           \<and> s2 \<le> s1"
  by (rule retrieval_score_recency_nonincreasing) simp_all

text \<open>The values that enter the score of the example, and the bound on its recency term.\<close>

lemma fl_half: "fl (1 / 2) = 1 / 2"
  by (rule fl_exact [of "- 1" "1 / 2" "2 ^ 52"]) (simp_all add: pow2_def)

lemma fl_three_tenths: "fl (3 / 10) = 5404319552844595 / 2 ^ 54"
proof -
  have "fl (3 / 10) = pow2 (- 2 - 52) * of_int 5404319552844595"
    by (rule fl_round) (simp_all add: pow2_def abs_less_iff)
  then show ?thesis by (simp add: pow2_def)
qed

lemma fl_weighted_importance:
  "fl (5404319552844595 / 2 ^ 54 * (1 / 2)) = 5404319552844595 / 2 ^ 55"
proof -
  have "fl (5404319552844595 / 2 ^ 55) = 5404319552844595 / 2 ^ 55"
    by (rule fl_exact [of "- 3" _ 5404319552844595]) (simp_all add: pow2_def)
  then show ?thesis by simp
qed

lemma fl_base_score:
  "fl (1 / 2 + 5404319552844595 / 2 ^ 55) = 5854679515581645 / 2 ^ 53"
proof -
  have "fl (1 / 2 + 5404319552844595 / 2 ^ 55) = pow2 (- 1 - 52) * of_int 5854679515581645"
    by (rule fl_round) (simp_all add: pow2_def abs_less_iff)
  then show ?thesis by (simp add: pow2_def)
qed

lemma base_score_value:
  "fl (fl (fl (1 / 2) * 1) + fl (fl (3 / 10) * (1 / 2))) = 5854679515581645 / 2 ^ 53"
proof -
  have a: "fl (fl (1 / 2) * 1) = 1 / 2"
    by (simp add: fl_half)
  have b: "fl (fl (3 / 10) * (1 / 2)) = 5404319552844595 / 2 ^ 55"
    unfolding fl_three_tenths by (rule fl_weighted_importance)
  show ?thesis
    unfolding a b by (rule fl_base_score)
qed

lemma cosine_similarity_unit: "cosine_similarity [1] [1] = Inr 1"
  by (simp add: cosine_similarity_def dot_product_def sum_squares_def float_sum_def
      fl_zero fl_one Let_def)

lemma absorbed_term:
  assumes "0 \<le> t" and "t \<le> 1 / 2 ^ 60"
  shows "fl (5854679515581645 / 2 ^ 53 + t) = 5854679515581645 / 2 ^ 53"
proof -
  have small: "t * 2 ^ 53 < 1 / 2"
  proof -
    have "t * 2 ^ 53 \<le> 1 / 2 ^ 60 * 2 ^ 53"
      using assms(2) by (intro mult_right_mono) simp_all
    then show ?thesis by simp
  qed
  have "fl (5854679515581645 / 2 ^ 53 + t) = pow2 (- 1 - 52) * of_int 5854679515581645"
  proof (rule fl_round)
    show "pow2 (- 1) \<le> \<bar>5854679515581645 / 2 ^ 53 + t\<bar>"
      using assms(1) by (simp add: pow2_def)
    show "\<bar>5854679515581645 / 2 ^ 53 + t\<bar> < pow2 (- 1 + 1)"
      using assms by (simp add: pow2_def)
    show "- 1022 \<le> (- 1 :: int)" by simp
    have "(5854679515581645 / 2 ^ 53 + t) / pow2 (- 1 - 52) - of_int 5854679515581645
            = t * 2 ^ 53"
      by (simp add: pow2_def field_simps)
    then show "\<bar>(5854679515581645 / 2 ^ 53 + t) / pow2 (- 1 - 52) - of_int 5854679515581645\<bar>
            < 1 / 2"
      using assms(1) small by simp
  qed
  then show ?thesis by (simp add: pow2_def)
qed

lemma exp_one_lower: "5 / 2 \<le> exp (1 :: real)"
proof -
  have "(9 / 8 :: real) \<le> exp (1 / 8)"
    using exp_ge_add_one_self [of "1 / 8"] by simp
  then have "(9 / 8 :: real) ^ 8 \<le> exp (1 / 8) ^ 8"
    by (intro power_mono) simp_all
  moreover have "exp (1 / 8 :: real) ^ 8 = exp 1"
    using exp_of_nat_mult [of 8 "1 / 8 :: real"] by simp
  moreover have "(5 / 2 :: real) \<le> (9 / 8) ^ 8"
    by (simp add: power_divide)
  ultimately show ?thesis by linarith
qed

lemma exp_small:
  fixes x :: real
  assumes "x \<le> - 47"
  shows "exp x \<le> 1 / 2 ^ 60"
proof -
  have "(5 / 2 :: real) ^ 47 \<le> exp 1 ^ 47"
    using exp_one_lower by (intro power_mono) simp_all
  moreover have "exp (1 :: real) ^ 47 = exp 47"
    using exp_of_nat_mult [of 47 "1 :: real"] by simp
  moreover have "(2 :: real) ^ 60 \<le> (5 / 2) ^ 47"
    by (simp add: power_divide)
  ultimately have big: "(2 :: real) ^ 60 \<le> exp 47"
    by linarith
  have "exp x \<le> exp (- 47)"
    using assms by simp
  also have "\<dots> = 1 / exp 47"
    by (simp add: exp_minus inverse_eq_divide)
  also have "\<dots> \<le> 1 / 2 ^ 60"
    using big by (intro divide_left_mono) simp_all
  finally show ?thesis .
qed

lemma fl_tiny: "fl (1 / 2 ^ 60) = 1 / 2 ^ 60"
  by (rule fl_exact [of "- 60" _ "2 ^ 52"]) (simp_all add: pow2_def)

lemma decay_rate_lower: "127 / 128 \<le> fl (199 / 200)"
proof -
  have "fl (127 / 128) = 127 / 128"
    by (rule fl_exact [of "- 1" _ "127 * 2 ^ 46"]) (simp_all add: pow2_def)
  moreover have "fl (127 / 128) \<le> fl (199 / 200)"
    by (rule fl_mono) simp
  ultimately show ?thesis by simp
qed

lemma recency_term_small:
  assumes "48 \<le> h"
  shows "0 \<le> fl (fl (1 / 5) * fl (exp (fl (- fl (199 / 200) * h))))"
    and "fl (fl (1 / 5) * fl (exp (fl (- fl (199 / 200) * h)))) \<le> 1 / 2 ^ 60"
proof -
  define E where "E = fl (exp (fl (- fl (199 / 200) * h)))"
  have "127 / 128 * 48 \<le> fl (199 / 200) * h"
    using decay_rate_lower assms by (intro mult_mono) simp_all
  then have "- fl (199 / 200) * h \<le> - (381 / 8)"
    by simp
  then have "fl (- fl (199 / 200) * h) \<le> fl (- (381 / 8))"
    by (rule fl_mono)
  moreover have "fl (381 / 8) = 381 / 8"
    by (rule fl_exact [of 5 _ "381 * 2 ^ 44"]) (simp_all add: pow2_def)
  ultimately have "fl (- fl (199 / 200) * h) \<le> - 47"
    by (simp add: fl_uminus)
  then have "exp (fl (- fl (199 / 200) * h)) \<le> 1 / 2 ^ 60"
    by (rule exp_small)
  then have "E \<le> fl (1 / 2 ^ 60)"
    unfolding E_def by (rule fl_mono)
  then have E_hi: "E \<le> 1 / 2 ^ 60"
    by (simp only: fl_tiny)
  have E_lo: "0 \<le> E"
    unfolding E_def by (rule fl_nonneg) simp
  have w_lo: "0 \<le> fl (1 / 5)"
    by (rule fl_nonneg) simp
  have "fl (1 / 5) \<le> fl 1"
    by (rule fl_mono) simp
  then have w_hi: "fl (1 / 5) \<le> 1"
    by (simp add: fl_one)
  have "fl (1 / 5) * E \<le> 1 * (1 / 2 ^ 60)"
    using w_lo w_hi E_lo E_hi by (intro mult_mono) simp_all
  then have "fl (fl (1 / 5) * E) \<le> fl (1 / 2 ^ 60)"
    by (intro fl_mono) simp
  then show "fl (fl (1 / 5) * fl (exp (fl (- fl (199 / 200) * h)))) \<le> 1 / 2 ^ 60"
    by (simp only: fl_tiny E_def)
  have "0 \<le> fl (1 / 5) * E"
    using w_lo E_lo by simp
  then show "0 \<le> fl (fl (1 / 5) * fl (exp (fl (- fl (199 / 200) * h))))"
    unfolding E_def [symmetric] by (rule fl_nonneg)
qed

lemma retrieval_score_absorbed:
  assumes hours: "fl (fl now / 3600) = h" and h: "48 \<le> h"
  shows "calculate_retrieval_score default_config now [1] [1] (1 / 2) 0 None =
           Inr (5854679515581645 / 2 ^ 53)"
proof -
  have arg: "fl (- fl (199 / 200) * fl (fl (now - 0) / 3600)) = fl (- fl (199 / 200) * h)"
    by (simp only: diff_zero hours)
  have neg: "fl (- fl (199 / 200) * fl (fl (now - 0) / 3600)) \<le> 0"
  proof -
    have "0 \<le> fl (199 / 200)" by (rule fl_nonneg) simp
    then have "- fl (199 / 200) * h \<le> 0"
      using h by (simp add: mult_nonneg_nonneg)
    then have "fl (- fl (199 / 200) * h) \<le> fl 0"
      by (rule fl_mono)
    then show ?thesis by (simp only: arg fl_zero)
  qed
  have "calculate_retrieval_score default_config now [1] [1] (1 / 2) 0 None =
     Inr (fl (fl (fl (fl (1 / 2) * 1) + fl (fl (3 / 10) * (1 / 2)))
              + fl (fl (1 / 5) * fl (exp (fl (- fl (199 / 200) * fl (fl (now - 0) / 3600)))))))"
    using cosine_similarity_unit neg by (rule retrieval_score_unfold)
  also have "\<dots> = Inr (fl (5854679515581645 / 2 ^ 53
              + fl (fl (1 / 5) * fl (exp (fl (- fl (199 / 200) * h))))))"
    by (simp only: arg base_score_value)
  also have "\<dots> = Inr (5854679515581645 / 2 ^ 53)"
    using recency_term_small [OF h] by (simp only: absorbed_term)
  finally show ?thesis .
qed

text \<open>
  Claim C9 as stated fails. For relevance 1 and importance 0.5 the score without the
  recency term is the double 0.65. At 48 hours and at 72 hours since the last access
  the recency term 0.2 * exp (- 0.995 * hours) is below 2 ^ -60, less than half the
  spacing of the doubles around 0.65, so that the last addition returns 0.65 at both
  ages: the score is equal, not smaller, at the later one.
\<close>

theorem retrieval_score_flat_after_two_days:
  "calculate_retrieval_score default_config 172800 [1] [1] (1 / 2) 0 None =
     Inr (5854679515581645 / 9007199254740992)
   \<and> calculate_retrieval_score default_config 259200 [1] [1] (1 / 2) 0 None =
     Inr (5854679515581645 / 9007199254740992)"
proof -
  have f1: "fl 172800 = 172800"
    by (rule fl_exact [of 17 _ "172800 * 2 ^ 35"]) (simp_all add: pow2_def)
  have f2: "fl 259200 = 259200"
    by (rule fl_exact [of 17 _ "259200 * 2 ^ 35"]) (simp_all add: pow2_def)
  have f48: "fl 48 = 48"
    by (rule fl_exact [of 5 _ "48 * 2 ^ 47"]) (simp_all add: pow2_def)
  have f72: "fl 72 = 72"
    by (rule fl_exact [of 6 _ "72 * 2 ^ 46"]) (simp_all add: pow2_def)
  have h1: "fl (fl 172800 / 3600) = 48"
    by (simp add: f1 f48)
  have h2: "fl (fl 259200 / 3600) = 72"
    by (simp add: f2 f72)
  show ?thesis
    using retrieval_score_absorbed [OF h1] retrieval_score_absorbed [OF h2] by simp
qed

subsection \<open>Pattern utility\<close>







subsection \<open>Node identity in the embedded store\<close>

text \<open>
  Claim C10. The id that \<open>create_node\<close> returns is the first 16 characters of the hash
  of \<open>node_type:content\<close>, so it depends only on the node type and the content. Two
  calls with the same node type and content return the same id; after each call the
  table holds exactly one row with that id; after the second call that row carries the
  metadata, importance and validity interval of the second call; the number of rows does
  not grow and the rows with other ids are untouched.
\<close>

theorem create_node_idempotent_identity:
  "(let (id1, nodes1) = create_node sha256_hex now1 nodes nt c m1 i1 vf1 vu1;
        (id2, nodes2) = create_node sha256_hex now2 nodes1 nt c m2 i2 vf2 vu2
    in id1 = take 16 (sha256_hex (nt @ '':'' @ c))
       \<and> id2 = id1
       \<and> length (filter (\<lambda>r. node_id r = id1) nodes1) = 1
       \<and> filter (\<lambda>r. node_id r = id1) nodes2 =
           [\<lparr> node_id = id1, lite_node_type = nt, node_content = c,
              node_metadata = (case m2 of None \<Rightarrow> [] | Some m \<Rightarrow> m),
              node_importance = i2, access_count = 0,
              node_created_at = now2, node_last_accessed = now2,
              node_valid_from = vf2, node_valid_until = vu2 \<rparr>]
       \<and> length nodes2 = length nodes1
       \<and> filter (\<lambda>r. node_id r \<noteq> id1) nodes2 = filter (\<lambda>r. node_id r \<noteq> id1) nodes)"
  by (simp add: create_node_def insert_or_replace_def Let_def filter_empty_conv)

subsection \<open>Node merge on upsert\<close>

lemma merged_sources_text: "set (merged_sources (JsonText xs) ys) = set xs"
  by (simp add: merged_sources_def)

lemma merged_sources_decoded: "set (merged_sources (DecodedList xs) ys) = set xs \<union> set ys"
  by (simp add: merged_sources_def)

lemma find_append_new:
  "find P xs = None \<Longrightarrow> P y \<Longrightarrow> find P (xs @ [y]) = Some y"
  by (induction xs) (auto split: if_splits)

lemma map_append_not_matching:
  "find (\<lambda>r. row_name r = n) xs = None \<Longrightarrow>
     map (\<lambda>r. if row_name r = n then f r else r) xs = xs"
  by (induction xs) (auto split: if_splits)

lemma upsert_semantic_node_insert:
  assumes "find (\<lambda>r. row_name r = name node) table = None"
  shows "upsert_semantic_node now table node =
     (True, table @
        [\<lparr> row_node_id = next_key (map row_node_id table),
           row_name = name node, row_node_type = node_type node,
           row_description = description node, row_importance = importance node,
           row_sources = JsonText (sources node),
           row_created_at = now, row_last_updated = now \<rparr>])"
  using assms by (simp add: upsert_semantic_node_def)

lemma upsert_semantic_node_twice:
  assumes fresh: "find (\<lambda>r. row_name r = name nodeA) table = None"
    and same: "name nodeB = name nodeA"
  shows "upsert_semantic_node now2 (snd (upsert_semantic_node now1 table nodeA)) nodeB =
     (False, table @
        [\<lparr> row_node_id = next_key (map row_node_id table),
           row_name = name nodeA, row_node_type = node_type nodeA,
           row_description = description nodeB,
           row_importance = max (importance nodeA) (importance nodeB),
           row_sources = JsonText (remdups (sources nodeA)),
           row_created_at = now1, row_last_updated = now2 \<rparr>])"
proof -
  let ?rowA = "\<lparr> row_node_id = next_key (map row_node_id table),
           row_name = name nodeA, row_node_type = node_type nodeA,
           row_description = description nodeA, row_importance = importance nodeA,
           row_sources = JsonText (sources nodeA),
           row_created_at = now1, row_last_updated = now1 \<rparr>"
  have first: "snd (upsert_semantic_node now1 table nodeA) = table @ [?rowA]"
    using fresh by (simp add: upsert_semantic_node_insert)
  have found: "find (\<lambda>r. row_name r = name nodeA) (table @ [?rowA]) = Some ?rowA"
    using fresh by (intro find_append_new) simp_all
  have unchanged: "map (\<lambda>r. if row_name r = name nodeA then f r else r) table = table" for f
    using fresh by (simp add: map_append_not_matching)
  show ?thesis
    unfolding first
    by (simp add: upsert_semantic_node_def found unchanged same merged_sources_def)
qed

text \<open>
  Claim C1 at a concrete input. A node \<open>auth.py\<close> is upserted into an empty table with
  sources \<open>[e1]\<close> and importance 0.4, then again with sources \<open>[e2]\<close> and importance 0.9.
  The stored row has the description of the second upsert, the importance 0.9 (the
  maximum) and \<open>last_updated\<close> of the second upsert, but its sources are \<open>[e1]\<close>, not the
  union: the inserted row holds JSON text, and for a text column the merge expression
  leaves the new node's sources out.
\<close>

theorem upsert_semantic_node_drops_sources:
  "snd (upsert_semantic_node 2
          (snd (upsert_semantic_node 1 []
             \<lparr> name = ''auth.py'', node_type = ''file'', description = ''first'',
               importance = 0.4, sources = [''e1''], created_at = Some 1,
               last_updated = Some 1, metadata = None \<rparr>))
          \<lparr> name = ''auth.py'', node_type = ''file'', description = ''second'',
            importance = 0.9, sources = [''e2''], created_at = Some 2,
            last_updated = Some 2, metadata = None \<rparr>)
   = [\<lparr> row_node_id = 1, row_name = ''auth.py'', row_node_type = ''file'',
        row_description = ''second'', row_importance = 0.9,
        row_sources = JsonText [''e1''],
        row_created_at = 1, row_last_updated = 2 \<rparr>]
   \<and> set [''e1''] \<noteq> set [''e1''] \<union> set [''e2'']"
  by (simp add: upsert_semantic_node_def merged_sources_def next_key_def)

subsection \<open>Supersession of relations\<close>

lemma find_via_filter:
  "find P xs = (case filter P xs of [] \<Rightarrow> None | x # _ \<Rightarrow> Some x)"
  by (induction xs) auto

lemma same_key_same_row:
  assumes "distinct (map relation_id table)" and "ex \<in> set table" and "r \<in> set table"
    and "relation_id r = relation_id ex"
  shows "r = ex"
  using assms by (meson distinct_map inj_onD)

lemma close_by_key:
  assumes "distinct (map relation_id table)" and "ex \<in> set table"
  shows "map (\<lambda>r. if relation_id r = relation_id ex then r\<lparr> r_valid_to := Some now \<rparr> else r) table
       = map (\<lambda>r. if r = ex then ex\<lparr> r_valid_to := Some now \<rparr> else r) table"
  using same_key_same_row [OF assms] by (intro map_cong) auto

lemma only_active_is_ex:
  assumes "filter P table = [ex]" and "r \<in> set table" and "P r"
  shows "r = ex"
proof -
  have "r \<in> set (filter P table)" using assms(2,3) by simp
  then show ?thesis unfolding assms(1) by simp
qed

lemma filter_eq_single:
  assumes "distinct xs" and "x \<in> set xs"
  shows "filter (\<lambda>r. r = x) xs = [x]"
  using assms by (induction xs) (auto simp: filter_empty_conv)

lemma zip_with_mapped_prefix:
  "zip xs (map f xs @ ys) = map (\<lambda>x. (x, f x)) xs"
  by (induction xs) auto

text \<open>
  Claim C5, as the code has it. When the relation ids of the table are distinct, the
  triple of the given relation has exactly one active row, and the given relation has no
  \<open>valid_to\<close>, then after \<open>_upsert_relation\<close> the triple has exactly one active row,
  the inserted one, with the given strength and the given metadata (stored as \<open>NULL\<close>
  when missing or empty); and exactly one row of the old table changed: the formerly
  active row, whose \<open>valid_to\<close> is now the time of the call.
\<close>

theorem upsert_relation_supersedes:
  assumes ids: "distinct (map relation_id table)"
    and one: "filter (active_for rel) table = [ex]"
    and unset: "valid_to rel = None"
  shows "\<exists>new.
      upsert_relation now table rel =
        (True, map (\<lambda>r. if r = ex then ex\<lparr> r_valid_to := Some now \<rparr> else r) table @ [new])
    \<and> filter (active_for rel) (snd (upsert_relation now table rel)) = [new]
    \<and> r_strength new = strength rel
    \<and> r_metadata new =
        (case rel_metadata rel of None \<Rightarrow> None | Some m \<Rightarrow> if m = [] then None else Some m)
    \<and> filter (\<lambda>(old, cur). old \<noteq> cur) (zip table (snd (upsert_relation now table rel))) =
        [(ex, ex\<lparr> r_valid_to := Some now \<rparr>)]"
proof -
  define new where "new =
      \<lparr> relation_id = next_key (map relation_id table),
        r_source = source rel, r_relation_type = relation_type rel,
        r_target = target rel, r_strength = strength rel,
        r_valid_from = (case valid_from rel of Some t \<Rightarrow> t | None \<Rightarrow> now),
        r_valid_to = valid_to rel,
        r_metadata =
          (case rel_metadata rel of None \<Rightarrow> None | Some m \<Rightarrow> if m = [] then None else Some m) \<rparr>"
  define closed where "closed = ex\<lparr> r_valid_to := Some now \<rparr>"
  define table' where "table' = map (\<lambda>r. if r = ex then closed else r) table"
  have "ex \<in> set (filter (active_for rel) table)"
    unfolding one by simp
  then have ex_in: "ex \<in> set table" and ex_act: "active_for rel ex"
    by simp_all
  have found: "find (active_for rel) table = Some ex"
    by (simp add: find_via_filter one)
  have res: "upsert_relation now table rel = (True, table' @ [new])"
    unfolding upsert_relation_def Let_def found table'_def closed_def new_def
    by (simp add: close_by_key [OF ids ex_in])
  have closed_inactive: "\<not> active_for rel closed"
    by (simp add: closed_def active_for_def)
  have none_left: "filter (active_for rel) table' = []"
  proof -
    have "\<not> active_for rel x" if "x \<in> set table'" for x
    proof -
      from that obtain r where r: "r \<in> set table" "x = (if r = ex then closed else r)"
        unfolding table'_def by auto
      show ?thesis
      proof (cases "r = ex")
        case True
        then show ?thesis using r closed_inactive by simp
      next
        case False
        then show ?thesis using r only_active_is_ex [OF one, of r] by auto
      qed
    qed
    then show ?thesis by (simp add: filter_empty_conv)
  qed
  have new_act: "active_for rel new"
    using unset by (simp add: new_def active_for_def)
  have act: "filter (active_for rel) (table' @ [new]) = [new]"
    by (simp add: none_left new_act)
  have dist: "distinct table"
    using ids by (simp add: distinct_map)
  have changed: "ex \<noteq> closed"
  proof
    assume "ex = closed"
    then have "r_valid_to ex = r_valid_to closed" by simp
    then show False using ex_act by (simp add: closed_def active_for_def)
  qed
  have zip_eq: "zip table (table' @ [new]) = map (\<lambda>r. (r, if r = ex then closed else r)) table"
    unfolding table'_def by (rule zip_with_mapped_prefix)
  have "filter (\<lambda>(old, cur). old \<noteq> cur) (zip table (table' @ [new])) =
          map (\<lambda>r. (r, if r = ex then closed else r)) (filter (\<lambda>r. r = ex) table)"
    unfolding zip_eq filter_map
    by (intro arg_cong [where f = "map _"] filter_cong) (auto simp: changed)
  also have "\<dots> = [(ex, closed)]"
    by (simp add: filter_eq_single [OF dist ex_in])
  finally have diff: "filter (\<lambda>(old, cur). old \<noteq> cur) (zip table (table' @ [new])) = [(ex, closed)]" .
  show ?thesis
    apply (rule exI [of _ new])
    unfolding res snd_conv
    using act diff by (simp add: table'_def closed_def new_def)
qed

theorem upsert_relation_supersedes_witness:
  "\<exists>new.
      upsert_relation 5
        [\<lparr> relation_id = 1, r_source = ''svc_a'', r_relation_type = ''depends_on'',
           r_target = ''svc_b'', r_strength = 0.8, r_valid_from = 0, r_valid_to = None,
           r_metadata = None \<rparr>]
        \<lparr> source = ''svc_a'', relation_type = ''depends_on'', target = ''svc_b'',
          strength = 0.9, valid_from = None, valid_to = None, rel_metadata = None \<rparr>
      = (True,
         [\<lparr> relation_id = 1, r_source = ''svc_a'', r_relation_type = ''depends_on'',
            r_target = ''svc_b'', r_strength = 0.8, r_valid_from = 0, r_valid_to = Some 5,
            r_metadata = None \<rparr>, new])
    \<and> r_strength new = 0.9 \<and> r_valid_to new = None"
proof -
  define row :: relation_row where
    "row = \<lparr> relation_id = 1, r_source = ''svc_a'', r_relation_type = ''depends_on'',
             r_target = ''svc_b'', r_strength = 0.8, r_valid_from = 0, r_valid_to = None,
             r_metadata = None \<rparr>"
  define rel :: relation where
    "rel = \<lparr> source = ''svc_a'', relation_type = ''depends_on'', target = ''svc_b'',
             strength = 0.9, valid_from = None, valid_to = None, rel_metadata = None \<rparr>"
  have ids: "distinct (map relation_id [row])"
    by simp
  have one: "filter (active_for rel) [row] = [row]"
    by (simp add: active_for_def row_def rel_def)
  have unset: "valid_to rel = None"
    by (simp add: rel_def)
  obtain new where
    res: "upsert_relation 5 [row] rel =
            (True, map (\<lambda>r. if r = row then row\<lparr> r_valid_to := Some 5 \<rparr> else r) [row] @ [new])"
    and act: "filter (active_for rel) (snd (upsert_relation 5 [row] rel)) = [new]"
    and str: "r_strength new = strength rel"
    using upsert_relation_supersedes [OF ids one unset, of 5] by blast
  have "new \<in> set (filter (active_for rel) (snd (upsert_relation 5 [row] rel)))"
    unfolding act by simp
  then have "r_valid_to new = None"
    by (simp add: active_for_def)
  then show ?thesis
    using res str by (auto simp: row_def rel_def)
qed

text \<open>
  Claim C5 as stated fails when the given relation carries a \<open>valid_to\<close>: the
  active row of the triple is closed and the inserted row is closed as well, so that no
  active row is left for the triple.
\<close>

theorem upsert_relation_closed_input:
  "filter
     (active_for
        \<lparr> source = ''svc_a'', relation_type = ''depends_on'', target = ''svc_b'',
          strength = 0.9, valid_from = None, valid_to = Some 7, rel_metadata = None \<rparr>)
     [\<lparr> relation_id = 1, r_source = ''svc_a'', r_relation_type = ''depends_on'',
        r_target = ''svc_b'', r_strength = 0.8, r_valid_from = 0, r_valid_to = None,
        r_metadata = None \<rparr>]
   = [\<lparr> relation_id = 1, r_source = ''svc_a'', r_relation_type = ''depends_on'',
        r_target = ''svc_b'', r_strength = 0.8, r_valid_from = 0, r_valid_to = None,
        r_metadata = None \<rparr>]
   \<and> filter
     (active_for
        \<lparr> source = ''svc_a'', relation_type = ''depends_on'', target = ''svc_b'',
          strength = 0.9, valid_from = None, valid_to = Some 7, rel_metadata = None \<rparr>)
     (snd (upsert_relation 5
        [\<lparr> relation_id = 1, r_source = ''svc_a'', r_relation_type = ''depends_on'',
           r_target = ''svc_b'', r_strength = 0.8, r_valid_from = 0, r_valid_to = None,
           r_metadata = None \<rparr>]
        \<lparr> source = ''svc_a'', relation_type = ''depends_on'', target = ''svc_b'',
          strength = 0.9, valid_from = None, valid_to = Some 7, rel_metadata = None \<rparr>))
   = []"
  by (simp add: upsert_relation_def active_for_def)

subsection \<open>Retry policy\<close>

lemma wrapper_loop_returns:
  "int attempt < m \<Longrightarrow> func attempt = Returns v \<Longrightarrow>
     wrapper_loop m d func attempt s = (Inr v, s, attempt + 1)"
  by (subst wrapper_loop.simps) simp

lemma wrapper_loop_propagates:
  "int attempt < m \<Longrightarrow> func attempt = Raises e \<Longrightarrow> \<not> is_transient e \<Longrightarrow>
     wrapper_loop m d func attempt s = (Inl e, s, attempt + 1)"
  by (subst wrapper_loop.simps) simp

lemma wrapper_loop_retries:
  "int attempt < m - 1 \<Longrightarrow> func attempt = Raises e \<Longrightarrow> is_transient e \<Longrightarrow>
     wrapper_loop m d func attempt s =
       wrapper_loop m d func (attempt + 1) (s @ [d * (real attempt + 1)])"
  by (subst wrapper_loop.simps) simp

lemma wrapper_loop_last_attempt:
  "int attempt = m - 1 \<Longrightarrow> func attempt = Raises e \<Longrightarrow> is_transient e \<Longrightarrow>
     wrapper_loop m d func attempt s = (Inl ConnectionError, s, attempt + 1)"
  by (subst wrapper_loop.simps, simp, subst wrapper_loop.simps, simp)

text \<open>
  What leaves the \<open>try\<close> block of a decorated method is never one of the two exceptions
  that the wrapper catches.
\<close>

lemma translated_not_transient:
  "translate_redis_errors out = Raises e \<Longrightarrow> \<not> is_transient e"
  by (auto simp: translate_redis_errors_def is_redis_error_def is_transient_def
      split: outcome.splits if_splits)

text \<open>
  Hence a store operation makes exactly one call and never sleeps, whatever its store
  commands do: it returns the value of the call, or raises what the call raises, an
  exception of the client library as \<open>BlackboardError\<close>.
\<close>

lemma decorated_method_single_call:
  "decorated_method body =
     (case body 0 of
        Returns v \<Rightarrow> (Inr v, [], 1)
      | Raises e \<Rightarrow> (Inl (if is_redis_error e then BlackboardError else e), [], 1))"
proof (cases "translate_redis_errors (body 0)")
  case (Returns v)
  then have b: "body 0 = Returns v"
    by (auto simp: translate_redis_errors_def split: outcome.splits if_splits)
  have "wrapper_loop 3 0.5 (\<lambda>attempt. translate_redis_errors (body attempt)) 0 [] =
          (Inr v, [], 0 + 1)"
    using Returns by (intro wrapper_loop_returns) simp_all
  then show ?thesis
    by (simp add: decorated_method_def retry_on_failure_def b)
next
  case (Raises e')
  then obtain e where b: "body 0 = Raises e"
    and e': "e' = (if is_redis_error e then BlackboardError else e)"
    by (auto simp: translate_redis_errors_def split: outcome.splits if_splits)
  have "wrapper_loop 3 0.5 (\<lambda>attempt. translate_redis_errors (body attempt)) 0 [] =
          (Inl e', [], 0 + 1)"
    using Raises translated_not_transient [OF Raises]
    by (intro wrapper_loop_propagates) simp_all
  then show ?thesis
    by (simp add: decorated_method_def retry_on_failure_def b e')
qed

text \<open>
  Claim C3 at a concrete input. A store operation whose store command fails with
  \<open>redis.ConnectionError\<close>, or with \<open>redis.TimeoutError\<close>, in every call: the handler of
  the method turns the error into \<open>BlackboardError\<close> before the wrapper sees it, so the
  operation makes one call, does not sleep and raises \<open>BlackboardError\<close>; it is not
  retried and does not end in \<open>ConnectionError\<close>.
\<close>

theorem store_operation_not_retried:
  "decorated_method (\<lambda>attempt. Raises RedisConnectionError :: unit outcome)
     = (Inl BlackboardError, [], 1)
   \<and> decorated_method (\<lambda>attempt. Raises RedisTimeoutError :: unit outcome)
     = (Inl BlackboardError, [], 1)"
  by (simp add: decorated_method_single_call is_redis_error_def)

text \<open>
  The wrapper taken alone, around a function that raises transient errors to it in
  every attempt: three calls, a sleep of 0.5 s after the first and of 1.0 s after the
  second, then \<open>ConnectionError\<close>.
\<close>

lemma wrapper_alone_all_transient:
  assumes "\<forall>i<3. \<exists>e. func i = Raises e \<and> is_transient e"
  shows "retry_on_failure 3 0.5 func = (Inl ConnectionError, [0.5, 1.0], 3)"
proof -
  obtain e0 e1 e2 where
    f: "func 0 = Raises e0" "is_transient e0" "func 1 = Raises e1" "is_transient e1"
       "func 2 = Raises e2" "is_transient e2"
    using assms by (metis numeral_2_eq_2 numeral_3_eq_3 lessI less_SucI One_nat_def)
  have "wrapper_loop 3 0.5 func 0 [] = wrapper_loop 3 0.5 func 1 [0.5]"
    using wrapper_loop_retries [of 0 3 func e0 "0.5" "[]"] f by simp
  also have "\<dots> = wrapper_loop 3 0.5 func 2 [0.5, 1.0]"
    using wrapper_loop_retries [of 1 3 func e1 "0.5" "[0.5]"] f
      by (simp add: numeral_2_eq_2)
  also have "\<dots> = (Inl ConnectionError, [0.5, 1.0], 3)"
    using wrapper_loop_last_attempt [of 2 3 func e2 "0.5" "[0.5, 1.0]"] f by simp
  finally show ?thesis by (simp add: retry_on_failure_def)
qed

subsection \<open>Blocking lock acquisition\<close>

lemma redis_set_nx_free:
  "st key = None \<Longrightarrow> redis_set_nx st key v px = (True, st(key \<mapsto> (v, px)))"
  by (simp add: redis_set_nx_def)

lemma redis_set_nx_held:
  "st key \<noteq> None \<Longrightarrow> redis_set_nx st key v px = (False, st)"
  by (auto simp: redis_set_nx_def)

lemma upt_shift: "[k..<Suc (k + n)] = k # [Suc k..<Suc (k + n)]"
  by (simp add: upt_conv_Cons)

lemma acquire_blocking_outcome:
  "\<exists>n. (\<forall>j<n. env_run env k j st key \<noteq> None
             \<and> elapsed + sum_list (map backoff_sleep [k..<k + j]) < bt)
     \<and> (env_run env k n st key = None
         \<and> acquire_blocking env key ttl bt st k elapsed slept =
             (Inr True, (env_run env k n st)(key \<mapsto> (''1'', ttl)),
              slept @ map backoff_sleep [k..<k + n])
        \<or> env_run env k n st key \<noteq> None
         \<and> bt \<le> elapsed + sum_list (map backoff_sleep [k..<k + n])
         \<and> acquire_blocking env key ttl bt st k elapsed slept =
             (Inl LockAcquisitionError, env_run env k n st,
              slept @ map backoff_sleep [k..<k + n]))"
proof (induction env key ttl bt st k elapsed slept rule: acquire_blocking.induct)
  case (1 env key ttl bt st k elapsed slept)
  show ?case
  proof (cases "st key = None")
    case True
    then have "acquire_blocking env key ttl bt st k elapsed slept =
        (Inr True, st(key \<mapsto> (''1'', ttl)), slept)"
      by (subst acquire_blocking.simps) (simp add: redis_set_nx_free)
    moreover have "env_run env k 0 st key = None"
      using True by simp
    ultimately show ?thesis
      by (intro exI [of _ 0]) (simp only: env_run.simps upt_conv_Nil add_0_right
            list.map append_Nil2 not_less_zero simp_thms)
  next
    case held: False
    show ?thesis
    proof (cases "bt \<le> elapsed")
      case True
      then have "acquire_blocking env key ttl bt st k elapsed slept =
          (Inl LockAcquisitionError, st, slept)"
        using held by (subst acquire_blocking.simps) (simp add: redis_set_nx_held)
      then show ?thesis
        using True held by (intro exI [of _ 0]) simp
    next
      case False
      have step: "acquire_blocking env key ttl bt st k elapsed slept =
          acquire_blocking env key ttl bt (env k st) (Suc k) (elapsed + backoff_sleep k)
            (slept @ [backoff_sleep k])"
        using held False by (subst acquire_blocking.simps) (simp add: redis_set_nx_held)
      have nx: "redis_set_nx st key ''1'' ttl = (False, st)"
        using held by (rule redis_set_nx_held)
      have pre: "\<not> fst (redis_set_nx st key ''1'' ttl)" "\<not> bt \<le> elapsed"
        using False by (simp_all add: nx)
      from "1.IH" [OF pre, unfolded nx snd_conv]
      obtain n where
        inv: "\<forall>j<n. env_run env (Suc k) j (env k st) key \<noteq> None
               \<and> elapsed + backoff_sleep k + sum_list (map backoff_sleep [Suc k..<Suc k + j]) < bt"
        and out: "env_run env (Suc k) n (env k st) key = None
           \<and> acquire_blocking env key ttl bt (env k st) (Suc k) (elapsed + backoff_sleep k)
                (slept @ [backoff_sleep k]) =
               (Inr True, (env_run env (Suc k) n (env k st))(key \<mapsto> (''1'', ttl)),
                (slept @ [backoff_sleep k]) @ map backoff_sleep [Suc k..<Suc k + n])
          \<or> env_run env (Suc k) n (env k st) key \<noteq> None
           \<and> bt \<le> elapsed + backoff_sleep k + sum_list (map backoff_sleep [Suc k..<Suc k + n])
           \<and> acquire_blocking env key ttl bt (env k st) (Suc k) (elapsed + backoff_sleep k)
                (slept @ [backoff_sleep k]) =
               (Inl LockAcquisitionError, env_run env (Suc k) n (env k st),
                (slept @ [backoff_sleep k]) @ map backoff_sleep [Suc k..<Suc k + n])"
        by blast
      have inv': "env_run env k j st key \<noteq> None
             \<and> elapsed + sum_list (map backoff_sleep [k..<k + j]) < bt" if "j < Suc n" for j
      proof (cases j)
        case 0
        then show ?thesis using held False by simp
      next
        case (Suc j')
        then have "j' < n" using that by simp
        then show ?thesis
          using inv Suc by (simp add: upt_shift add.assoc del: upt_Suc)
      qed
      have e: "env_run env k (Suc n) st = env_run env (Suc k) n (env k st)"
        by simp
      have l: "slept @ map backoff_sleep [k..<k + Suc n] =
          (slept @ [backoff_sleep k]) @ map backoff_sleep [Suc k..<Suc k + n]"
        by (simp add: upt_shift del: upt_Suc)
      have s: "elapsed + sum_list (map backoff_sleep [k..<k + Suc n]) =
          elapsed + backoff_sleep k + sum_list (map backoff_sleep [Suc k..<Suc k + n])"
        by (simp add: upt_shift del: upt_Suc)
      have all: "\<forall>j<Suc n. env_run env k j st key \<noteq> None
             \<and> elapsed + sum_list (map backoff_sleep [k..<k + j]) < bt"
        using inv' by blast
      show ?thesis
        apply (rule exI [of _ "Suc n"])
        unfolding step e l s
        using all out by blast
    qed
  qed
qed


lemma backoff_sleep_fun: "backoff_sleep = (\<lambda>i. min (0.01 * 2 ^ i) 1)"
  by (rule ext) (simp add: backoff_sleep_def wait_time_def)

text \<open>
  Claim C4. A blocking \<open>acquire_lock\<close> always ends. It makes some number \<open>n\<close> of failed
  polls, each followed by a sleep, and sleep number \<open>i\<close> lasts min (0.01 * 2 ^ i) 1
  seconds: 10 ms, doubled after each failed poll, capped at 1 s. Every poll that is
  followed by a sleep found the lock held with the elapsed time still below
  \<open>blocking_timeout\<close>. The call then either finds the lock free, writes the marker and
  returns \<open>True\<close>, or finds it held with the elapsed time at or beyond
  \<open>blocking_timeout\<close> and raises \<open>LockAcquisitionError\<close>; in that case the store it
  leaves is the store that the other clients alone produced: the failed caller wrote no
  marker.
\<close>

theorem blocking_acquire_lock:
  "\<exists>n. (\<forall>j<n. env_run env 0 j st (make_lock_key rid) \<noteq> None
             \<and> sum_list (map (\<lambda>i. min (0.01 * 2 ^ i) 1) [0..<j]) < bt)
     \<and> (env_run env 0 n st (make_lock_key rid) = None
         \<and> acquire_lock env st rid ttl True bt =
             (Inr True, (env_run env 0 n st)(make_lock_key rid \<mapsto> (''1'', ttl)),
              map (\<lambda>i. min (0.01 * 2 ^ i) 1) [0..<n])
        \<or> env_run env 0 n st (make_lock_key rid) \<noteq> None
         \<and> bt \<le> sum_list (map (\<lambda>i. min (0.01 * 2 ^ i) 1) [0..<n])
         \<and> acquire_lock env st rid ttl True bt =
             (Inl LockAcquisitionError, env_run env 0 n st,
              map (\<lambda>i. min (0.01 * 2 ^ i) 1) [0..<n]))"
  using acquire_blocking_outcome [of env 0 st "make_lock_key rid" 0 bt ttl "[]"]
  unfolding acquire_lock_def Let_def backoff_sleep_fun
  by simp

theorem blocking_acquire_lock_witness:
  "(\<exists>n. (\<forall>j<n. env_run (\<lambda>k st. st) 0 j [''bb:lock:r'' \<mapsto> (''1'', 5000)] (make_lock_key ''r'') \<noteq> None
             \<and> sum_list (map (\<lambda>i. min (0.01 * 2 ^ i) 1) [0..<j]) < (0.05 :: real))
     \<and> (env_run (\<lambda>k st. st) 0 n [''bb:lock:r'' \<mapsto> (''1'', 5000)] (make_lock_key ''r'') = None
         \<and> acquire_lock (\<lambda>k st. st) [''bb:lock:r'' \<mapsto> (''1'', 5000)] ''r'' 1000 True 0.05 =
             (Inr True,
              (env_run (\<lambda>k st. st) 0 n [''bb:lock:r'' \<mapsto> (''1'', 5000)])
                (make_lock_key ''r'' \<mapsto> (''1'', 1000)),
              map (\<lambda>i. min (0.01 * 2 ^ i) 1) [0..<n])
        \<or> env_run (\<lambda>k st. st) 0 n [''bb:lock:r'' \<mapsto> (''1'', 5000)] (make_lock_key ''r'') \<noteq> None
         \<and> (0.05 :: real) \<le> sum_list (map (\<lambda>i. min (0.01 * 2 ^ i) 1) [0..<n])
         \<and> acquire_lock (\<lambda>k st. st) [''bb:lock:r'' \<mapsto> (''1'', 5000)] ''r'' 1000 True 0.05 =
             (Inl LockAcquisitionError,
              env_run (\<lambda>k st. st) 0 n [''bb:lock:r'' \<mapsto> (''1'', 5000)],
              map (\<lambda>i. min (0.01 * 2 ^ i) 1) [0..<n])))
   \<and> acquire_lock (\<lambda>k st. st) [''bb:lock:r'' \<mapsto> (''1'', 5000)] ''r'' 1000 True 0.05 =
       (Inl LockAcquisitionError, [''bb:lock:r'' \<mapsto> (''1'', 5000)], [0.01, 0.02, 0.04])"
proof
  show "\<exists>n. (\<forall>j<n. env_run (\<lambda>k st. st) 0 j [''bb:lock:r'' \<mapsto> (''1'', 5000)] (make_lock_key ''r'') \<noteq> None
             \<and> sum_list (map (\<lambda>i. min (0.01 * 2 ^ i) 1) [0..<j]) < (0.05 :: real))
     \<and> (env_run (\<lambda>k st. st) 0 n [''bb:lock:r'' \<mapsto> (''1'', 5000)] (make_lock_key ''r'') = None
         \<and> acquire_lock (\<lambda>k st. st) [''bb:lock:r'' \<mapsto> (''1'', 5000)] ''r'' 1000 True 0.05 =
             (Inr True,
              (env_run (\<lambda>k st. st) 0 n [''bb:lock:r'' \<mapsto> (''1'', 5000)])
                (make_lock_key ''r'' \<mapsto> (''1'', 1000)),
              map (\<lambda>i. min (0.01 * 2 ^ i) 1) [0..<n])
        \<or> env_run (\<lambda>k st. st) 0 n [''bb:lock:r'' \<mapsto> (''1'', 5000)] (make_lock_key ''r'') \<noteq> None
         \<and> (0.05 :: real) \<le> sum_list (map (\<lambda>i. min (0.01 * 2 ^ i) 1) [0..<n])
         \<and> acquire_lock (\<lambda>k st. st) [''bb:lock:r'' \<mapsto> (''1'', 5000)] ''r'' 1000 True 0.05 =
             (Inl LockAcquisitionError,
              env_run (\<lambda>k st. st) 0 n [''bb:lock:r'' \<mapsto> (''1'', 5000)],
              map (\<lambda>i. min (0.01 * 2 ^ i) 1) [0..<n]))"
    by (rule blocking_acquire_lock)
next
  show "acquire_lock (\<lambda>k st. st) [''bb:lock:r'' \<mapsto> (''1'', 5000)] ''r'' 1000 True 0.05 =
       (Inl LockAcquisitionError, [''bb:lock:r'' \<mapsto> (''1'', 5000)], [0.01, 0.02, 0.04])"
    by (simp add: acquire_lock_def make_lock_key_def acquire_blocking.simps redis_set_nx_def
        backoff_sleep_def wait_time_def)
qed

text \<open>
  \<open>LockAcquisitionError\<close> is not a transient error: the retry wrapper around
  \<open>acquire_lock\<close> raises it to the caller after the single call.
\<close>

lemma lock_timeout_passes_wrapper:
  assumes "func 0 = Raises LockAcquisitionError"
  shows "retry_on_failure 3 0.5 func = (Inl LockAcquisitionError, [], 1)"
proof -
  have "wrapper_loop 3 0.5 func 0 [] = (Inl LockAcquisitionError, [], 0 + 1)"
    using assms by (intro wrapper_loop_propagates) (simp_all add: is_transient_def)
  then show ?thesis by (simp add: retry_on_failure_def)
qed

end
